theory Spec2Isabelle
  imports Main "HOL-Library.Sublist"
begin

section \<open>The environment of the Go releaser (src/go.ts)\<close>

text \<open>
  \<open>GoReleaser\<close> works on the file system (Node's \<open>fs\<close> and \<open>path\<close> modules) and
  on external commands (\<open>utils.shell\<close>). Both are made explicit: a file system is a
  tree of files and directories (no links, no permissions), a path is a list of
  segments, and every external command (\<open>git\<close>, \<open>cp\<close>) is answered by a \<open>runner\<close>, a
  parameter of the model that decides the exit status, the output and the effect of
  the command on the file system. The runner sees the whole world, so the outcome of
  a command may depend on everything that happened before it.
\<close>

subsection \<open>Errors\<close>

text \<open>
  Every \<open>throw\<close> of the source and every exception of a library call is a value:
  \<open>Error msg\<close> is \<open>new Error(msg)\<close>, \<open>CommandFailed cmd cause\<close> is the exception
  of \<open>utils.shell\<close> for a command that exits with a non-zero status (\<open>cause\<close> is
  what the command reported), the other three are the exceptions of
  \<open>fs.readdirSync\<close>, \<open>fs.readFileSync\<close> and \<open>process.chdir\<close>.
\<close>

datatype fpath = Abs "string list" | Rel "string list"

datatype error =
    Error string
  | CommandFailed string string
  | ENOENT fpath
  | ENOTDIR fpath
  | EISDIR fpath

subsection \<open>Paths\<close>

text \<open>
  A path is kept in the normal form that \<open>path.join\<close> produces: its list of
  segments, absolute (\<open>Abs\<close>) or relative to the working directory (\<open>Rel\<close>).
  Segments are plain names (not empty, not \<open>.\<close> or \<open>..\<close>, no slash): \<open>path_join\<close>
  drops an empty segment as \<open>path.join\<close> does, and does not interpret \<open>.\<close> and
  \<open>..\<close>, which a directory listing never returns. \<open>basename\<close> is \<open>path.basename\<close>:
  the last segment, the empty string for the root \<open>/\<close>, and \<open>.\<close> for the working
  directory \<open>.\<close> itself. \<open>render\<close> is the string that a template literal prints for
  the path.
\<close>

fun segments :: "fpath \<Rightarrow> string list" where
  "segments (Abs ss) = ss"
| "segments (Rel ss) = ss"

fun path_join :: "fpath \<Rightarrow> string \<Rightarrow> fpath" where
  "path_join (Abs ss) s = (if s = [] then Abs ss else Abs (ss @ [s]))"
| "path_join (Rel ss) s = (if s = [] then Rel ss else Rel (ss @ [s]))"

fun basename :: "fpath \<Rightarrow> string" where
  "basename (Abs ss) = (if ss = [] then [] else last ss)"
| "basename (Rel ss) = (if ss = [] then ''.'' else last ss)"

fun intercalate :: "string \<Rightarrow> string list \<Rightarrow> string" where
  "intercalate sep [] = []"
| "intercalate sep [s] = s"
| "intercalate sep (s # t # ss) = s @ sep @ intercalate sep (t # ss)"

fun render :: "fpath \<Rightarrow> string" where
  "render (Abs ss) = ''/'' @ intercalate ''/'' ss"
| "render (Rel ss) = (if ss = [] then ''.'' else intercalate ''/'' ss)"

text \<open>
  \<open>String.prototype.split\<close> with a one-character separator: the result is never
  empty, and an empty string splits into one empty piece.
\<close>

fun split_on :: "char \<Rightarrow> string \<Rightarrow> string list" where
  "split_on c [] = [[]]"
| "split_on c (x # xs) =
     (if x = c then [] # split_on c xs
      else (case split_on c xs of
              [] \<Rightarrow> [[x]]
            | y # ys \<Rightarrow> (x # y) # ys))"

text \<open>
  \<open>path.basename\<close> of a string (the repository \<open>owner/repo\<close>): trailing slashes
  are dropped, then the part after the last slash is taken.
\<close>

definition basename_str :: "string \<Rightarrow> string" where
  "basename_str s =
     (let segs = filter (\<lambda>x. x \<noteq> []) (split_on (CHR ''/'') s)
      in if segs = [] then [] else last segs)"

text \<open>
  \<open>xs[i]\<close> inside a template literal: an index out of range is \<open>undefined\<close>,
  printed as the text \<open>undefined\<close>. (The other use, \<open>line.split(' ')[1]\<close> on a
  line that starts with \<open>module \<close> and a space, is always in range.)
\<close>

definition js_index :: "string list \<Rightarrow> nat \<Rightarrow> string" where
  "js_index xs i = (if i < length xs then xs ! i else ''undefined'')"

subsection \<open>The file system\<close>

datatype fsnode = File string | Dir "(string \<times> fsnode) list"

fun fs_lookup :: "fsnode \<Rightarrow> string list \<Rightarrow> fsnode option" where
  "fs_lookup n [] = Some n"
| "fs_lookup n (s # ss) =
     (case n of
        File c \<Rightarrow> None
      | Dir cs \<Rightarrow> (case map_of cs s of None \<Rightarrow> None | Some c \<Rightarrow> fs_lookup c ss))"

text \<open>
  \<open>fs_alter f p n\<close> replaces the node at path \<open>p\<close> by \<open>f\<close> of it, and deletes it
  when \<open>f\<close> answers \<open>None\<close>; a path that does not exist is left alone.
\<close>

fun fs_alter :: "(fsnode \<Rightarrow> fsnode option) \<Rightarrow> string list \<Rightarrow> fsnode \<Rightarrow> fsnode option" where
  "fs_alter f [] n = f n"
| "fs_alter f (s # ss) n =
     (case n of
        File c \<Rightarrow> Some (File c)
      | Dir cs \<Rightarrow>
          Some (Dir (List.map_filter
            (\<lambda>(k, c). if k = s then map_option (Pair k) (fs_alter f ss c) else Some (k, c)) cs)))"

definition fs_apply :: "(fsnode \<Rightarrow> fsnode option) \<Rightarrow> string list \<Rightarrow> fsnode \<Rightarrow> fsnode" where
  "fs_apply f p n = (case fs_alter f p n of None \<Rightarrow> Dir [] | Some n' \<Rightarrow> n')"

subsection \<open>The world and the process runner\<close>

text \<open>
  \<open>trace\<close> lists the external commands in the order \<open>utils.shell\<close> started them,
  \<open>console\<close> the lines printed by \<open>console.log\<close>. \<open>installed\<close> are the programs
  that \<open>utils.which\<close> finds, \<open>tmpname\<close> is the directory that the next
  \<open>fs.mkdtempSync\<close> creates. The runner answers a command with \<open>Exit_ok out f\<close>
  (status zero, the output, the files after the command) or \<open>Exit_fail cause f\<close>
  (another status, what the command reported, the files after the command).
\<close>

record world =
  fs :: fsnode
  cwd :: "string list"
  console :: "string list"
  trace :: "string list"
  installed :: "string list"
  tmpname :: "string list"

datatype shell_result = Exit_ok string fsnode | Exit_fail string fsnode

type_synonym runner = "string \<Rightarrow> world \<Rightarrow> shell_result"

type_synonym env = "string \<Rightarrow> string option"

type_synonym 'a action = "world \<Rightarrow> (error + 'a) \<times> world"

definition ret :: "'a \<Rightarrow> 'a action" where
  "ret a w = (Inr a, w)"

definition throw :: "error \<Rightarrow> 'a action" where
  "throw e w = (Inl e, w)"

definition andThen :: "'a action \<Rightarrow> ('a \<Rightarrow> 'b action) \<Rightarrow> 'b action" where
  "andThen m f w = (case m w of (Inl e, w') \<Rightarrow> (Inl e, w') | (Inr a, w') \<Rightarrow> f a w')"

definition tryCatch :: "'a action \<Rightarrow> (error \<Rightarrow> 'a action) \<Rightarrow> 'a action" where
  "tryCatch m h w = (case m w of (Inl e, w') \<Rightarrow> h e w' | (Inr a, w') \<Rightarrow> (Inr a, w'))"

definition lift :: "(world \<Rightarrow> error + 'a) \<Rightarrow> 'a action" where
  "lift f w = (f w, w)"

fun mapM :: "('a \<Rightarrow> 'b action) \<Rightarrow> 'a list \<Rightarrow> 'b list action" where
  "mapM f [] w = (Inr [], w)"
| "mapM f (x # xs) w =
     (case f x w of
        (Inl e, w') \<Rightarrow> (Inl e, w')
      | (Inr y, w') \<Rightarrow>
          (case mapM f xs w' of
             (Inl e, w'') \<Rightarrow> (Inl e, w'')
           | (Inr ys, w'') \<Rightarrow> (Inr (y # ys), w'')))"

fun forEach :: "('a \<Rightarrow> 'b action) \<Rightarrow> 'a list \<Rightarrow> unit action" where
  "forEach f [] w = (Inr (), w)"
| "forEach f (x # xs) w =
     (case f x w of
        (Inl e, w') \<Rightarrow> (Inl e, w')
      | (Inr y, w') \<Rightarrow> forEach f xs w')"

definition console_log :: "string \<Rightarrow> unit action" where
  "console_log line w = (Inr (), w\<lparr>console := console w @ [line]\<rparr>)"

subsection \<open>Node's fs and process calls\<close>

definition resolve :: "world \<Rightarrow> fpath \<Rightarrow> string list" where
  "resolve w p = (case p of Abs ss \<Rightarrow> ss | Rel ss \<Rightarrow> cwd w @ ss)"

definition existsSync :: "world \<Rightarrow> fpath \<Rightarrow> bool" where
  "existsSync w p = (fs_lookup (fs w) (resolve w p) \<noteq> None)"

definition readdirSync :: "world \<Rightarrow> fpath \<Rightarrow> error + string list" where
  "readdirSync w p =
     (case fs_lookup (fs w) (resolve w p) of
        None \<Rightarrow> Inl (ENOENT p)
      | Some (File c) \<Rightarrow> Inl (ENOTDIR p)
      | Some (Dir cs) \<Rightarrow> Inr (map fst cs))"

definition readFileSync :: "world \<Rightarrow> fpath \<Rightarrow> error + string" where
  "readFileSync w p =
     (case fs_lookup (fs w) (resolve w p) of
        None \<Rightarrow> Inl (ENOENT p)
      | Some (File c) \<Rightarrow> Inr c
      | Some (Dir cs) \<Rightarrow> Inl (EISDIR p))"

definition chdir :: "fpath \<Rightarrow> unit action" where
  "chdir p w =
     (case fs_lookup (fs w) (resolve w p) of
        None \<Rightarrow> (Inl (ENOENT p), w)
      | Some (File c) \<Rightarrow> (Inl (ENOTDIR p), w)
      | Some (Dir cs) \<Rightarrow> (Inr (), w\<lparr>cwd := resolve w p\<rparr>))"

text \<open>
  \<open>fs.mkdtempSync(os.tmpdir())\<close>: a new, empty directory whose name the system
  chooses (\<open>tmpname\<close>); it fails when the parent directory does not exist.
\<close>

definition mkdtempSync :: "fpath action" where
  "mkdtempSync w =
     (if tmpname w = [] then (Inl (ENOENT (Abs [])), w)
      else (case fs_lookup (fs w) (butlast (tmpname w)) of
              Some (Dir parent) \<Rightarrow>
                (Inr (Abs (tmpname w)),
                 w\<lparr>fs := fs_apply
                      (\<lambda>n. case n of File c \<Rightarrow> Some n
                            | Dir cs \<Rightarrow> Some (Dir (cs @ [(last (tmpname w), Dir [])])))
                      (butlast (tmpname w)) (fs w)\<rparr>)
            | _ \<Rightarrow> (Inl (ENOENT (Abs (tmpname w))), w)))"

subsection \<open>The helpers of utils.ts\<close>

text \<open>
  Modelled from the spec: \<open>utils.shell\<close> is not among the sources. The spec's
  Process Runner "executes external commands, captures output, and raises on
  non-zero exit". The command is recorded in \<open>trace\<close>, the runner answers it, and a
  failure is the error \<open>CommandFailed\<close> with the command and what it reported.
\<close>

definition shell :: "runner \<Rightarrow> string \<Rightarrow> string action" where
  "shell R cmd w =
     (case R cmd w of
        Exit_ok out f \<Rightarrow> (Inr out, w\<lparr>fs := f, trace := trace w @ [cmd]\<rparr>)
      | Exit_fail cause f \<Rightarrow>
          (Inl (CommandFailed cmd cause), w\<lparr>fs := f, trace := trace w @ [cmd]\<rparr>))"

text \<open>
  Modelled from the spec: \<open>utils.which\<close> is not among the sources. It raises when
  the "required external tool" is missing.
\<close>

definition which :: "string \<Rightarrow> unit action" where
  "which prog w =
     (if prog \<in> set (installed w) then (Inr (), w)
      else (Inl (Error (''not found: '' @ prog)), w))"

text \<open>
  Modelled from the spec: \<open>utils.removeDirectory\<close> is not among the sources. The
  spec has it "clear every tracked file in the workspace except version-control
  metadata" (the call with \<open>includeRoot: false\<close> and \<open>exclude: ['.git']\<close>), and
  has a submodule directory "cleared and replaced" (the call with the defaults):
  the entries of the directory whose names are not excluded are deleted, and the
  directory itself too when the root is included and nothing is left in it.
\<close>

definition removeDirectory :: "fpath \<Rightarrow> bool \<Rightarrow> string list \<Rightarrow> unit action" where
  "removeDirectory p includeRoot exclude w =
     (Inr (),
      w\<lparr>fs := fs_apply
           (\<lambda>n. case n of
                   File c \<Rightarrow> Some n
                 | Dir cs \<Rightarrow>
                     (let kept = filter (\<lambda>(k, c). k \<in> set exclude) cs
                      in if includeRoot \<and> kept = [] then None else Some (Dir kept)))
           (resolve w p) (fs w)\<rparr>)"

section \<open>GoReleaser\<close>

record GoReleaser =
  version :: "string option"
  dir :: fpath
  dryRun :: bool
  gitBranch :: string
  gitUsername :: string
  gitUseremail :: string

record GoRelease =
  tags :: "string list option"

text \<open>
  \<open>if (x)\<close> on a value of type \<open>string | undefined\<close>: \<open>undefined\<close> and the empty
  string are both false.
\<close>

fun truthy :: "string option \<Rightarrow> string option" where
  "truthy None = None"
| "truthy (Some v) = (if v = [] then None else Some v)"

definition toLowerCase :: "string \<Rightarrow> string" where
  "toLowerCase s =
     map (\<lambda>c. if 65 \<le> (of_char c :: nat) \<and> (of_char c :: nat) \<le> 90
               then char_of ((of_char c :: nat) + 32) else c) s"

subsection \<open>The constructor (lines 29-52)\<close>

text \<open>\<open>process.env.X ?? utils.shell(cmd)\<close>: the command runs only when the variable is unset.\<close>

definition env_or_shell :: "env \<Rightarrow> runner \<Rightarrow> string \<Rightarrow> string \<Rightarrow> string action" where
  "env_or_shell env R var cmd =
     (case env var of Some v \<Rightarrow> ret v | None \<Rightarrow> shell R cmd)"

definition GoReleaser_new :: "env \<Rightarrow> runner \<Rightarrow> fpath option \<Rightarrow> GoReleaser action" where
  "GoReleaser_new env R d =
     andThen (tryCatch (which ''git'')
                (\<lambda>err. throw (Error ''git must be available to create this release''))) (\<lambda>_.
     andThen (env_or_shell env R ''GIT_USER_NAME'' ''git config user.name'') (\<lambda>username.
     andThen (env_or_shell env R ''GIT_USER_EMAIL'' ''git config user.email'') (\<lambda>useremail.
       if useremail = [] then
         throw (Error ''Unable to detect username. either configure a global git user.name or pass GIT_USER_NAME env variable'')
       else if username = [] then
         throw (Error ''Unable to detect user email. either configure a global git user.email or pass GIT_USER_EMAIL env variable'')
       else
         ret \<lparr>version = env ''VERSION'',
              dir = (case d of None \<Rightarrow> Rel [''dist'', ''go''] | Some p \<Rightarrow> p),
              dryRun = (toLowerCase (case env ''DRY_RUN'' of None \<Rightarrow> ''false'' | Some v \<Rightarrow> v) = ''true''),
              gitBranch = (case env ''GIT_BRANCH'' of None \<Rightarrow> ''main'' | Some v \<Rightarrow> v),
              gitUsername = username,
              gitUseremail = useremail\<rparr>)))"

subsection \<open>cloneGitHub (lines 107-116)\<close>

definition cloneGitHub :: "env \<Rightarrow> runner \<Rightarrow> string \<Rightarrow> fpath \<Rightarrow> unit action" where
  "cloneGitHub env R repository targetDir =
     (case truthy (env ''GITHUB_TOKEN'') of
        None \<Rightarrow> throw (Error ''GITHUB_TOKEN env variable is required'')
      | Some gitHubToken \<Rightarrow>
          andThen (shell R (''git clone https://'' @ gitHubToken @ ''@github.com/''
                            @ repository @ ''.git '' @ render targetDir))
            (\<lambda>_. ret ()))"

subsection \<open>collectModules (lines 118-136)\<close>

fun collectModules_loop :: "world \<Rightarrow> fpath \<Rightarrow> string list \<Rightarrow> fpath list \<Rightarrow> fpath list" where
  "collectModules_loop w d [] modules = modules"
| "collectModules_loop w d (p # ps) modules =
     (let fullPath = path_join d p
      in collectModules_loop w d ps
           (if existsSync w (path_join fullPath ''go.mod'') then modules @ [fullPath]
            else modules))"

definition collectModules :: "world \<Rightarrow> fpath \<Rightarrow> error + fpath list" where
  "collectModules w d =
     (let modules = (if existsSync w (path_join d ''go.mod'') then [d] else [])
      in case readdirSync w d of
           Inl e \<Rightarrow> Inl e
         | Inr ps \<Rightarrow> Inr (collectModules_loop w d ps modules))"

subsection \<open>syncModules (lines 138-153)\<close>

definition syncModules_clear :: "fpath \<Rightarrow> unit action" where
  "syncModules_clear repoDir w =
     (if existsSync w (path_join repoDir ''go.mod'') then
        removeDirectory repoDir False [''.git''] w
      else
        (case readdirSync w repoDir of
           Inl e \<Rightarrow> (Inl e, w)
         | Inr ps \<Rightarrow>
             forEach (\<lambda>p w'.
                 if existsSync w' (path_join (path_join repoDir p) ''go.mod'')
                 then removeDirectory (path_join repoDir p) True [] w'
                 else (Inr (), w')) ps w))"

definition syncModules :: "runner \<Rightarrow> GoReleaser \<Rightarrow> fpath \<Rightarrow> unit action" where
  "syncModules R this repoDir =
     andThen (syncModules_clear repoDir) (\<lambda>_.
     andThen (shell R (''cp -r '' @ render (dir this) @ ''/* '' @ render repoDir)) (\<lambda>_.
     ret ()))"

subsection \<open>extractRepo (lines 155-182)\<close>

fun findModuleDeclaration_loop :: "fpath \<Rightarrow> string list \<Rightarrow> error + string" where
  "findModuleDeclaration_loop modFile [] =
     Inl (Error (''No module declaration in file: '' @ render modFile))"
| "findModuleDeclaration_loop modFile (line # lines) =
     (if prefix ''module '' line then Inr (js_index (split_on (CHR '' '') line) 1)
      else findModuleDeclaration_loop modFile lines)"

definition findModuleDeclaration :: "world \<Rightarrow> fpath \<Rightarrow> error + string" where
  "findModuleDeclaration w modFile =
     (case readFileSync w modFile of
        Inl e \<Rightarrow> Inl e
      | Inr content \<Rightarrow> findModuleDeclaration_loop modFile (split_on (CHR 0x0A) content))"

text \<open>The body of the loop over the modules: the \<open>owner/repo\<close> of one module.\<close>

definition module_repo :: "world \<Rightarrow> fpath \<Rightarrow> error + string" where
  "module_repo w module =
     (let modFile = path_join module ''go.mod''
      in case findModuleDeclaration w modFile of
           Inl e \<Rightarrow> Inl e
         | Inr decl \<Rightarrow>
             (let fullModuleName = split_on (CHR ''/'') decl;
                  owner = js_index fullModuleName 1;
                  repo = js_index fullModuleName 2
              in Inr (owner @ ''/'' @ repo)))"

text \<open>A \<open>Set<string>\<close> keeps its members in insertion order, each once.\<close>

definition set_add :: "string \<Rightarrow> string list \<Rightarrow> string list" where
  "set_add x xs = (if x \<in> set xs then xs else xs @ [x])"

fun extractRepo_loop :: "world \<Rightarrow> fpath list \<Rightarrow> string list \<Rightarrow> error + string list" where
  "extractRepo_loop w [] repos = Inr repos"
| "extractRepo_loop w (module # modules) repos =
     (case module_repo w module of
        Inl e \<Rightarrow> Inl e
      | Inr r \<Rightarrow> extractRepo_loop w modules (set_add r repos))"

definition extractRepo :: "world \<Rightarrow> fpath list \<Rightarrow> error + string" where
  "extractRepo w modules =
     (case extractRepo_loop w modules [] of
        Inl e \<Rightarrow> Inl e
      | Inr repos \<Rightarrow>
          (if length repos = 0 then
             Inl (Error ''Unable to detect repository from module files.'')
           else if length repos > 1 then
             Inl (Error ''Multiple repositories found in module files'')
           else Inr (hd repos)))"

subsection \<open>extractVersion (lines 212-224)\<close>

definition extractVersion :: "GoReleaser \<Rightarrow> world \<Rightarrow> fpath \<Rightarrow> error + string" where
  "extractVersion this w moduleDirectory =
     (let versionFile = path_join moduleDirectory ''version''
      in case truthy (version this) of
           Some v \<Rightarrow> Inr v
         | None \<Rightarrow>
             (if existsSync w versionFile then readFileSync w versionFile
              else Inl (Error (''Unable to determine version of module ''
                     @ render moduleDirectory @ ''. ''
                     @ ''Either include a 'version' file, or specify a global version using the VERSION environment variable.''))))"

subsection \<open>createReleaseMessage (lines 184-195)\<close>

fun createReleaseMessage_loop :: "GoReleaser \<Rightarrow> world \<Rightarrow> fpath list \<Rightarrow> string \<Rightarrow> error + string" where
  "createReleaseMessage_loop this w [] message = Inr message"
| "createReleaseMessage_loop this w (module # modules) message =
     (let moduleName = basename module
      in case extractVersion this w module of
           Inl e \<Rightarrow> Inl e
         | Inr moduleVersion \<Rightarrow>
             createReleaseMessage_loop this w modules
               (message @ '' '' @ moduleName @ ''@'' @ moduleVersion))"

definition createReleaseMessage :: "GoReleaser \<Rightarrow> world \<Rightarrow> fpath list \<Rightarrow> error + string" where
  "createReleaseMessage this w modules =
     (let message = ''chore(release):''
      in case truthy (version this) of
           Some v \<Rightarrow> Inr (message @ '' '' @ v)
         | None \<Rightarrow> createReleaseMessage_loop this w modules message)"

subsection \<open>createTag (lines 197-210)\<close>

definition createTag :: "runner \<Rightarrow> GoReleaser \<Rightarrow> fpath \<Rightarrow> fpath \<Rightarrow> string action" where
  "createTag R this moduleDirectory repoDir =
     (let moduleName = basename moduleDirectory
      in andThen (lift (\<lambda>w. extractVersion this w moduleDirectory)) (\<lambda>moduleVersion.
         let tagName = (if moduleName = basename repoDir then ''v'' @ moduleVersion
                        else moduleName @ ''/v'' @ moduleVersion)
         in andThen (shell R (''git tag -a '' @ tagName @ '' -m '' @ tagName)) (\<lambda>_.
            ret tagName)))"


subsection \<open>release (lines 59-105)\<close>

definition release :: "env \<Rightarrow> runner \<Rightarrow> GoReleaser \<Rightarrow> GoRelease action" where
  "release env R this =
     andThen (lift (\<lambda>w. collectModules w (dir this))) (\<lambda>modules.
     andThen (console_log ''Detected modules:'') (\<lambda>_.
     andThen (forEach (\<lambda>m. console_log ('' - '' @ render m)) modules) (\<lambda>_.
     andThen (lift (\<lambda>w. extractRepo w modules)) (\<lambda>repo.
     andThen mkdtempSync (\<lambda>tmp.
     let repoDir = path_join tmp (basename_str repo) in
     andThen (cloneGitHub env R repo repoDir) (\<lambda>_.
     andThen (chdir repoDir) (\<lambda>_.
     andThen (tryCatch (shell R (''git checkout '' @ gitBranch this))
                (\<lambda>err. shell R (''git checkout -b '' @ gitBranch this))) (\<lambda>_.
     andThen (syncModules R this repoDir) (\<lambda>_.
     andThen (tryCatch
                (andThen (shell R ''git add .'') (\<lambda>_.
                 andThen (shell R ''git diff-index --exit-code HEAD --'') (\<lambda>_.
                 andThen (console_log ''No changes. Skipping release'') (\<lambda>_.
                 ret True))))
                (\<lambda>err. ret False)) (\<lambda>unchanged.
     if unchanged then ret \<lparr>tags = None\<rparr>
     else
     andThen (shell R (''git config user.name '' @ gitUsername this)) (\<lambda>_.
     andThen (shell R (''git config user.email '' @ gitUseremail this)) (\<lambda>_.
     andThen (case env ''GIT_COMMIT_MESSAGE'' of
                Some m \<Rightarrow> ret m
              | None \<Rightarrow> lift (\<lambda>w. createReleaseMessage this w modules)) (\<lambda>commitMessage.
     andThen (shell R (''git commit -m '' @ [CHR 0x22] @ commitMessage @ [CHR 0x22])) (\<lambda>_.
     andThen (mapM (\<lambda>m. createTag R this m repoDir) modules) (\<lambda>tags.
     andThen (if dryRun this then
                andThen (console_log (''Will push to branch: '' @ gitBranch this)) (\<lambda>_.
                forEach (\<lambda>t. console_log (''Will push tag: '' @ t)) tags)
              else
                andThen (shell R (''git push origin '' @ gitBranch this)) (\<lambda>_.
                forEach (\<lambda>t. shell R (''git push origin '' @ t)) tags)) (\<lambda>_.
     ret \<lparr>tags = Some tags\<rparr>))))))))))))))))"

subsection \<open>The stages of release\<close>

text \<open>
  The same steps, named, so that a property of one stage can be stated on its own:
  discovery, resolution and clone (lines 61-69), checkout (71-75), the test for an
  unchanged tree (79-86), the commit (88-93), the tags (95) and the push (97-103).
  Lemma \<open>release_stages\<close> below shows that \<open>release\<close> is their composition.
\<close>

definition release_clone :: "env \<Rightarrow> runner \<Rightarrow> GoReleaser \<Rightarrow> (fpath list \<times> fpath) action" where
  "release_clone env R this =
     andThen (lift (\<lambda>w. collectModules w (dir this))) (\<lambda>modules.
     andThen (console_log ''Detected modules:'') (\<lambda>_.
     andThen (forEach (\<lambda>m. console_log ('' - '' @ render m)) modules) (\<lambda>_.
     andThen (lift (\<lambda>w. extractRepo w modules)) (\<lambda>repo.
     andThen mkdtempSync (\<lambda>tmp.
     let repoDir = path_join tmp (basename_str repo) in
     andThen (cloneGitHub env R repo repoDir) (\<lambda>_.
     andThen (chdir repoDir) (\<lambda>_.
     ret (modules, repoDir))))))))"

definition release_checkout :: "runner \<Rightarrow> GoReleaser \<Rightarrow> string action" where
  "release_checkout R this =
     tryCatch (shell R (''git checkout '' @ gitBranch this))
       (\<lambda>err. shell R (''git checkout -b '' @ gitBranch this))"

definition release_unchanged :: "runner \<Rightarrow> bool action" where
  "release_unchanged R =
     tryCatch
       (andThen (shell R ''git add .'') (\<lambda>_.
        andThen (shell R ''git diff-index --exit-code HEAD --'') (\<lambda>_.
        andThen (console_log ''No changes. Skipping release'') (\<lambda>_.
        ret True))))
       (\<lambda>err. ret False)"

definition release_commit :: "env \<Rightarrow> runner \<Rightarrow> GoReleaser \<Rightarrow> fpath list \<Rightarrow> string action" where
  "release_commit env R this modules =
     andThen (shell R (''git config user.name '' @ gitUsername this)) (\<lambda>_.
     andThen (shell R (''git config user.email '' @ gitUseremail this)) (\<lambda>_.
     andThen (case env ''GIT_COMMIT_MESSAGE'' of
                Some m \<Rightarrow> ret m
              | None \<Rightarrow> lift (\<lambda>w. createReleaseMessage this w modules)) (\<lambda>commitMessage.
     shell R (''git commit -m '' @ [CHR 0x22] @ commitMessage @ [CHR 0x22]))))"

definition release_tags :: "runner \<Rightarrow> GoReleaser \<Rightarrow> fpath list \<Rightarrow> fpath \<Rightarrow> string list action" where
  "release_tags R this modules repoDir = mapM (\<lambda>m. createTag R this m repoDir) modules"

definition release_push :: "runner \<Rightarrow> GoReleaser \<Rightarrow> string list \<Rightarrow> unit action" where
  "release_push R this tagNames =
     (if dryRun this then
        andThen (console_log (''Will push to branch: '' @ gitBranch this)) (\<lambda>_.
        forEach (\<lambda>t. console_log (''Will push tag: '' @ t)) tagNames)
      else
        andThen (shell R (''git push origin '' @ gitBranch this)) (\<lambda>_.
        forEach (\<lambda>t. shell R (''git push origin '' @ t)) tagNames))"

text \<open>What follows the commit (lines 95-104), and what follows the checkout (lines 77-104).\<close>

definition release_publish :: "runner \<Rightarrow> GoReleaser \<Rightarrow> fpath list \<Rightarrow> fpath \<Rightarrow> GoRelease action" where
  "release_publish R this modules repoDir =
     andThen (release_tags R this modules repoDir) (\<lambda>tags.
     andThen (release_push R this tags) (\<lambda>_.
     ret \<lparr>tags = Some tags\<rparr>))"

definition release_finish :: "env \<Rightarrow> runner \<Rightarrow> GoReleaser \<Rightarrow> fpath list \<Rightarrow> fpath \<Rightarrow> GoRelease action" where
  "release_finish env R this modules repoDir =
     andThen (release_unchanged R) (\<lambda>unchanged.
     if unchanged then ret \<lparr>tags = None\<rparr>
     else
     andThen (release_commit env R this modules) (\<lambda>_.
     release_publish R this modules repoDir))"

text \<open>
  Everything up to the synchronisation (lines 61-77), and everything from the
  synchronisation on (lines 77-104).
\<close>

definition release_prepare :: "env \<Rightarrow> runner \<Rightarrow> GoReleaser \<Rightarrow> (fpath list \<times> fpath) action" where
  "release_prepare env R this =
     andThen (release_clone env R this) (\<lambda>(modules, repoDir).
     andThen (release_checkout R this) (\<lambda>_.
     andThen (syncModules R this repoDir) (\<lambda>_.
     ret (modules, repoDir))))"


text \<open>
  A node that directly holds a declaration file: what
  \<open>fs.existsSync(path.join(d, 'go.mod'))\<close> tests for the directory \<open>d\<close> of the node.
\<close>

definition holds_declaration :: "fsnode \<Rightarrow> bool" where
  "holds_declaration n = (fs_lookup n [''go.mod''] \<noteq> None)"

text \<open>
  The runner accepting a list of commands one after the other: \<open>accepted R cs w\<close> is
  the world after the last of them when every one exits with status zero, and
  \<open>None\<close> as soon as one does not. It speaks about the runner only.
\<close>

fun accepted :: "runner \<Rightarrow> string list \<Rightarrow> world \<Rightarrow> world option" where
  "accepted R [] w = Some w"
| "accepted R (c # cs) w =
     (case R c w of
        Exit_ok out f \<Rightarrow> accepted R cs (w\<lparr>fs := f, trace := trace w @ [c]\<rparr>)
      | Exit_fail msg f \<Rightarrow> None)"

text \<open>
  \<open>only_runs P m\<close>: whatever the outcome of \<open>m\<close>, the commands it starts are added
  at the end of the trace and all satisfy \<open>P\<close>.
\<close>

definition only_runs :: "(string \<Rightarrow> bool) \<Rightarrow> 'a action \<Rightarrow> bool" where
  "only_runs P m = (\<forall>w. \<exists>cs. trace (snd (m w)) = trace w @ cs \<and> list_all P cs)"

section \<open>A sample run\<close>

text \<open>
  Concrete inputs on which the statements below are evaluated. The staging directory
  \<open>/stage\<close> holds a top-level module of \<open>github.com/acme/widgets\<close> with a version
  file and one submodule \<open>sub\<close>. \<open>stub_runner failing cloned\<close> answers the external
  commands: the commands listed in \<open>failing\<close> exit with a non-zero status (and the
  message \<open>exit 1\<close>), \<open>git clone\<close>
  creates the tree \<open>cloned\<close> as the workspace, \<open>cp -r\<close> copies the visible entries of
  the staging directory over the workspace, replacing entries of the same name, and
  every other command succeeds with no effect on the files.
\<close>

definition stub_copy :: "string list \<Rightarrow> string list \<Rightarrow> fsnode \<Rightarrow> fsnode" where
  "stub_copy src dst f =
     (case fs_lookup f src of
        Some (Dir staged) \<Rightarrow>
          fs_apply (\<lambda>n. case n of
                      File c \<Rightarrow> Some n
                    | Dir cs \<Rightarrow> Some (Dir (filter (\<lambda>(k, c). k \<notin> fst ` set staged) cs
                                   @ filter (\<lambda>(k, c). \<not> prefix ''.'' k) staged))) dst f
      | _ \<Rightarrow> f)"

definition stub_runner :: "string list \<Rightarrow> fsnode \<Rightarrow> runner" where
  "stub_runner failing cloned cmd w =
     (if cmd \<in> set failing then Exit_fail ''exit 1'' (fs w)
      else if prefix ''git clone '' cmd then
        Exit_ok [] (fs_apply (\<lambda>n. case n of File c \<Rightarrow> Some n
                               | Dir cs \<Rightarrow> Some (Dir (cs @ [(''widgets'', cloned)])))
                      (tmpname w) (fs w))
      else if prefix ''cp -r '' cmd then
        Exit_ok [] (stub_copy [''stage''] (tmpname w @ [''widgets'']) (fs w))
      else Exit_ok [] (fs w))"

definition sample_stage :: fsnode where
  "sample_stage =
     Dir [(''go.mod'', File ''module github.com/acme/widgets''),
          (''version'', File ''1.2.3''),
          (''sub'', Dir [(''go.mod'', File ''module github.com/acme/widgets/sub''),
                        (''version'', File ''0.1.0'')]),
          (''docs'', Dir [(''notes'', File ''text'')])]"

definition sample_clone :: fsnode where
  "sample_clone =
     Dir [(''.git'', Dir [(''HEAD'', File ''ref'')]),
          (''README'', File ''hello''),
          (''sub'', Dir [(''go.mod'', File ''module github.com/acme/widgets/sub''),
                        (''old.go'', File ''package sub'')])]"

text \<open>
  A staging directory with two modules that declare different repositories, the
  file system right after the clone of the sample, and a staging directory named
  like the repository.
\<close>

definition sample_mixed_root :: fsnode where
  "sample_mixed_root =
     Dir [(''stage'',
           Dir [(''one'', Dir [(''go.mod'', File ''module github.com/acme/one'')]),
                (''two'', Dir [(''go.mod'', File ''module github.com/acme/two'')])]),
          (''tmp'', Dir [])]"

definition sample_cloned_root :: fsnode where
  "sample_cloned_root =
     Dir [(''stage'', sample_stage),
          (''tmp'', Dir [(''rel'', Dir [(''widgets'', sample_clone)])])]"

definition sample_named_root :: fsnode where
  "sample_named_root = Dir [(''widgets'', sample_stage), (''tmp'', Dir [])]"



definition sample_world :: "fsnode \<Rightarrow> world" where
  "sample_world f = \<lparr>fs = f, cwd = [''home''], console = [], trace = [],
                     installed = [''git''], tmpname = [''tmp'', ''rel'']\<rparr>"

definition sample_root :: fsnode where
  "sample_root = Dir [(''stage'', sample_stage), (''tmp'', Dir [])]"

definition sample_releaser :: GoReleaser where
  "sample_releaser =
     \<lparr>version = None, dir = Abs [''stage''], dryRun = False, gitBranch = ''main'',
      gitUsername = ''bot'', gitUseremail = ''bot@example.com''\<rparr>"

definition sample_env :: env where
  "sample_env = [''GITHUB_TOKEN'' \<mapsto> ''tok'']"

section \<open>Laws of the action combinators\<close>

lemma andThen_assoc:
  "andThen (andThen m f) g = andThen m (\<lambda>x. andThen (f x) g)"
  by (rule ext) (simp add: andThen_def split: prod.splits sum.splits)

lemma andThen_ret: "andThen (ret a) f = f a"
  by (rule ext) (simp add: andThen_def ret_def)

lemma andThen_ret_right: "andThen m ret = m"
  by (rule ext) (simp add: andThen_def ret_def split: prod.splits sum.splits)

lemma andThen_Inr: "m w = (Inr a, w') \<Longrightarrow> andThen m f w = f a w'"
  by (simp add: andThen_def)

lemma andThen_Inl: "m w = (Inl e, w') \<Longrightarrow> andThen m f w = (Inl e, w')"
  by (simp add: andThen_def)

lemma release_stages:
  "release env R this =
     andThen (release_clone env R this) (\<lambda>(modules, repoDir).
     andThen (release_checkout R this) (\<lambda>_.
     andThen (syncModules R this repoDir) (\<lambda>_.
     release_finish env R this modules repoDir)))"
  unfolding release_def release_clone_def release_checkout_def release_finish_def
    release_unchanged_def release_commit_def release_publish_def release_tags_def
    release_push_def Let_def
  by (simp add: andThen_assoc andThen_ret cong: if_cong)


section \<open>Module discovery\<close>

lemma collectModules_loop_filter:
  "collectModules_loop w d ps acc =
     acc @ filter (\<lambda>fullPath. existsSync w (path_join fullPath ''go.mod'')) (map (path_join d) ps)"
  by (induction ps arbitrary: acc) (simp_all add: Let_def)

lemma path_join_inject: "p \<noteq> [] \<Longrightarrow> q \<noteq> [] \<Longrightarrow> path_join d p = path_join d q \<longleftrightarrow> p = q"
  by (cases d) simp_all

lemma path_join_neq_self: "p \<noteq> [] \<Longrightarrow> path_join d p \<noteq> d"
  by (cases d) simp_all

lemma distinct_map_path_join:
  "distinct ps \<Longrightarrow> [] \<notin> set ps \<Longrightarrow> distinct (map (path_join d) ps)"
proof -
  assume d: "distinct ps" and n: "[] \<notin> set ps"
  have "inj_on (path_join d) (set ps)"
  proof (rule inj_onI)
    fix p q assume "p \<in> set ps" "q \<in> set ps" "path_join d p = path_join d q"
    moreover have "p \<noteq> []" "q \<noteq> []" using n calculation(1,2) by auto
    ultimately show "p = q" by (simp add: path_join_inject)
  qed
  with d show ?thesis by (simp add: distinct_map)
qed

text \<open>
  Claim C6. For a staging directory \<open>d\<close> whose entries are \<open>ps\<close> (distinct, non-empty
  names, as a directory listing is), \<open>collectModules\<close> returns a list \<open>ms\<close> in which
  \<open>d\<close> occurs if and only if \<open>d/go.mod\<close> exists, and the child \<open>d/p\<close> occurs if and
  only if \<open>d/p/go.mod\<close> exists; \<open>ms\<close> has no duplicates, and each of its members is
  \<open>d\<close> or an immediate child of \<open>d\<close>, so nothing nested deeper is returned.
\<close>

theorem collectModules_discovery:
  assumes "readdirSync w d = Inr ps" and "distinct ps" and "[] \<notin> set ps"
  shows "\<exists>ms. collectModules w d = Inr ms
           \<and> (d \<in> set ms \<longleftrightarrow> existsSync w (path_join d ''go.mod''))
           \<and> (\<forall>p\<in>set ps. path_join d p \<in> set ms
                 \<longleftrightarrow> existsSync w (path_join (path_join d p) ''go.mod''))
           \<and> distinct ms
           \<and> (\<forall>m\<in>set ms. m = d \<or> (\<exists>p\<in>set ps. m = path_join d p))"
proof -
  let ?sub = "filter (\<lambda>fullPath. existsSync w (path_join fullPath ''go.mod'')) (map (path_join d) ps)"
  let ?ms = "(if existsSync w (path_join d ''go.mod'') then [d] else []) @ ?sub"
  have eq: "collectModules w d = Inr ?ms"
    using assms(1) by (simp add: collectModules_def collectModules_loop_filter)
  have notin_img: "d \<notin> path_join d ` set ps"
  proof
    assume "d \<in> path_join d ` set ps"
    then obtain p where "p \<in> set ps" "d = path_join d p" by auto
    moreover from this assms(3) have "p \<noteq> []" by auto
    ultimately show False using path_join_neq_self [of p d] by simp
  qed
  then have notin: "d \<notin> set ?sub" by auto
  have root: "d \<in> set ?ms \<longleftrightarrow> existsSync w (path_join d ''go.mod'')"
    using notin_img by auto
  have child: "\<forall>p\<in>set ps. path_join d p \<in> set ?ms
                 \<longleftrightarrow> existsSync w (path_join (path_join d p) ''go.mod'')"
  proof
    fix p assume p: "p \<in> set ps"
    then have "p \<noteq> []" using assms(3) by auto
    then have "path_join d p \<noteq> d" by (rule path_join_neq_self)
    then show "path_join d p \<in> set ?ms
                 \<longleftrightarrow> existsSync w (path_join (path_join d p) ''go.mod'')"
      using p by auto
  qed
  have dist: "distinct ?ms"
    using notin_img distinct_map_path_join [OF assms(2,3), of d] by (auto simp: distinct_map_filter)
  have shape: "\<forall>m\<in>set ?ms. m = d \<or> (\<exists>p\<in>set ps. m = path_join d p)"
    by auto
  show ?thesis
    using eq root child dist shape by blast
qed

text \<open>
  On the sample staging directory: the root and \<open>sub\<close> are modules, \<open>docs\<close> and the
  two files are not.
\<close>

theorem collectModules_discovery_witness:
  "readdirSync (sample_world sample_root) (Abs [''stage'']) = Inr [''go.mod'', ''version'', ''sub'', ''docs'']
   \<and> collectModules (sample_world sample_root) (Abs [''stage'']) = Inr [Abs [''stage''], Abs [''stage'', ''sub'']]"
proof -
  let ?w = "sample_world sample_root"
  let ?ps = "[''go.mod'', ''version'', ''sub'', ''docs'']"
  have r: "readdirSync ?w (Abs [''stage'']) = Inr ?ps"
    by (simp add: readdirSync_def resolve_def sample_world_def sample_root_def sample_stage_def)
  have d: "distinct ?ps" by simp
  have n: "[] \<notin> set ?ps" by simp
  have c: "collectModules ?w (Abs [''stage'']) = Inr [Abs [''stage''], Abs [''stage'', ''sub'']]"
    by (simp add: collectModules_def readdirSync_def existsSync_def resolve_def
        sample_world_def sample_root_def sample_stage_def)
  from collectModules_discovery [OF r d n] r c show ?thesis by simp
qed

section \<open>Version resolution\<close>

text \<open>
  Claim C3. \<open>extractVersion\<close> follows this priority. A global override (a
  \<open>VERSION\<close> that passes the test \<open>if (this.version)\<close>, that is, set and not empty) is
  the result whatever the module directory holds. With no override, the contents of
  the module's \<open>version\<close> file are the result, unchanged. With neither, the result is
  the error whose message contains the module directory.
\<close>

theorem extractVersion_priority:
  "(truthy (version this) = Some v \<longrightarrow> extractVersion this w m = Inr v) \<and>
   (truthy (version this) = None
      \<and> fs_lookup (fs w) (resolve w (path_join m ''version'')) = Some (File c)
      \<longrightarrow> extractVersion this w m = Inr c) \<and>
   (truthy (version this) = None \<and> \<not> existsSync w (path_join m ''version'')
      \<longrightarrow> extractVersion this w m =
            Inl (Error (''Unable to determine version of module '' @ render m
              @ ''. Either include a 'version' file, or specify a global version using the VERSION environment variable.'')))"
  by (simp add: extractVersion_def existsSync_def readFileSync_def)

text \<open>
  The three cases on the sample staging directory: an override \<open>2.0.0\<close> beside the
  version file \<open>1.2.3\<close>, the version file alone, and the directory \<open>/stage/docs\<close>
  that has neither.
\<close>

theorem extractVersion_priority_witness:
  "extractVersion (sample_releaser\<lparr>version := Some ''2.0.0''\<rparr>) (sample_world sample_root)
     (Abs [''stage'']) = Inr ''2.0.0''
   \<and> fs_lookup sample_root [''stage'', ''version''] = Some (File ''1.2.3'')
   \<and> extractVersion sample_releaser (sample_world sample_root) (Abs [''stage'']) = Inr ''1.2.3''
   \<and> fs_lookup sample_root [''stage'', ''docs'', ''version''] = None
   \<and> extractVersion sample_releaser (sample_world sample_root) (Abs [''stage'', ''docs'']) =
        Inl (Error ''Unable to determine version of module /stage/docs. Either include a 'version' file, or specify a global version using the VERSION environment variable.'')"
proof -
  let ?w = "sample_world sample_root"
  have a: "truthy (version (sample_releaser\<lparr>version := Some ''2.0.0''\<rparr>)) = Some ''2.0.0''"
    by simp
  have b: "truthy (version sample_releaser) = None"
    by (simp add: sample_releaser_def)
  have c: "fs_lookup (fs ?w) (resolve ?w (path_join (Abs [''stage'']) ''version''))
             = Some (File ''1.2.3'')"
    by (simp add: sample_world_def sample_root_def sample_stage_def resolve_def)
  have d: "\<not> existsSync ?w (path_join (Abs [''stage'', ''docs'']) ''version'')"
    by (simp add: sample_world_def sample_root_def sample_stage_def resolve_def existsSync_def)
  have c': "fs_lookup sample_root [''stage'', ''version''] = Some (File ''1.2.3'')"
    by (simp add: sample_root_def sample_stage_def)
  have d': "fs_lookup sample_root [''stage'', ''docs'', ''version''] = None"
    by (simp add: sample_root_def sample_stage_def)
  show ?thesis
    using extractVersion_priority [of "sample_releaser\<lparr>version := Some ''2.0.0''\<rparr>"
        "''2.0.0''" ?w "Abs [''stage'']" "[]"]
      extractVersion_priority [of sample_releaser "[]" ?w "Abs [''stage'']" "''1.2.3''"]
      extractVersion_priority [of sample_releaser "[]" ?w "Abs [''stage'', ''docs'']" "[]"]
      a b c d c' d'
    by simp
qed

section \<open>The identity check of the constructor\<close>

text \<open>
  Claim C10. Once \<open>git\<close> is found and both identity values are resolved (from the
  environment or from \<open>git config\<close>): when the resolved e-mail is empty, the
  constructor raises the message about the username (\<open>user.name\<close>,
  \<open>GIT_USER_NAME\<close>); when the e-mail is not empty and the resolved username is
  empty, it raises the message about the e-mail (\<open>user.email\<close>, \<open>GIT_USER_EMAIL\<close>).
  Each diagnostic is attached to the check of the other field; the e-mail check runs
  first.
\<close>

theorem constructor_diagnostics_swapped:
  assumes "''git'' \<in> set (installed w)"
    and "env_or_shell env R ''GIT_USER_NAME'' ''git config user.name'' w = (Inr username, w1)"
    and "env_or_shell env R ''GIT_USER_EMAIL'' ''git config user.email'' w1 = (Inr useremail, w2)"
  shows "(useremail = [] \<longrightarrow>
            GoReleaser_new env R d w =
              (Inl (Error ''Unable to detect username. either configure a global git user.name or pass GIT_USER_NAME env variable''), w2))
       \<and> (useremail \<noteq> [] \<and> username = [] \<longrightarrow>
            GoReleaser_new env R d w =
              (Inl (Error ''Unable to detect user email. either configure a global git user.email or pass GIT_USER_EMAIL env variable''), w2))"
  using assms
  by (simp add: GoReleaser_new_def andThen_def tryCatch_def which_def throw_def)

text \<open>Both checks on concrete environments: an empty e-mail, then an empty username.\<close>

theorem constructor_diagnostics_swapped_witness:
  "fst (GoReleaser_new [''GIT_USER_NAME'' \<mapsto> ''bot'', ''GIT_USER_EMAIL'' \<mapsto> ''''] (stub_runner [] sample_clone) None (sample_world sample_root))
     = Inl (Error ''Unable to detect username. either configure a global git user.name or pass GIT_USER_NAME env variable'')
   \<and> fst (GoReleaser_new [''GIT_USER_NAME'' \<mapsto> '''', ''GIT_USER_EMAIL'' \<mapsto> ''bot@example.com''] (stub_runner [] sample_clone) None (sample_world sample_root))
     = Inl (Error ''Unable to detect user email. either configure a global git user.email or pass GIT_USER_EMAIL env variable'')"
proof -
  let ?w = "sample_world sample_root"
  let ?R = "stub_runner [] sample_clone"
  let ?e1 = "[''GIT_USER_NAME'' \<mapsto> ''bot'', ''GIT_USER_EMAIL'' \<mapsto> '''']"
  let ?e2 = "[''GIT_USER_NAME'' \<mapsto> '''', ''GIT_USER_EMAIL'' \<mapsto> ''bot@example.com'']"
  have g: "''git'' \<in> set (installed ?w)" by (simp add: sample_world_def)
  have n1: "env_or_shell ?e1 ?R ''GIT_USER_NAME'' ''git config user.name'' ?w = (Inr ''bot'', ?w)"
    by (simp add: env_or_shell_def ret_def)
  have m1: "env_or_shell ?e1 ?R ''GIT_USER_EMAIL'' ''git config user.email'' ?w = (Inr '''', ?w)"
    by (simp add: env_or_shell_def ret_def)
  have n2: "env_or_shell ?e2 ?R ''GIT_USER_NAME'' ''git config user.name'' ?w = (Inr '''', ?w)"
    by (simp add: env_or_shell_def ret_def)
  have m2: "env_or_shell ?e2 ?R ''GIT_USER_EMAIL'' ''git config user.email'' ?w = (Inr ''bot@example.com'', ?w)"
    by (simp add: env_or_shell_def ret_def)
  show ?thesis
    using constructor_diagnostics_swapped [OF g n1 m1, of None]
      constructor_diagnostics_swapped [OF g n2 m2, of None]
    by simp
qed

section \<open>Repository resolution\<close>

lemma release_by_prepare:
  "release env R this =
     andThen (release_prepare env R this) (\<lambda>(modules, repoDir).
     release_finish env R this modules repoDir)"
  unfolding release_stages release_prepare_def
  by (simp add: andThen_assoc andThen_ret split_def)


lemma forEach_console_log:
  "forEach (\<lambda>x. console_log (f x)) xs w = (Inr (), w\<lparr>console := console w @ map f xs\<rparr>)"
  by (induction xs arbitrary: w) (simp_all add: console_log_def)

lemma resolve_console [simp]: "resolve (w\<lparr>console := c\<rparr>) p = resolve w p"
  by (cases p) (simp_all add: resolve_def)

lemma module_repo_console [simp]: "module_repo (w\<lparr>console := c\<rparr>) m = module_repo w m"
  by (simp add: module_repo_def findModuleDeclaration_def readFileSync_def)

lemma extractRepo_loop_console [simp]:
  "extractRepo_loop (w\<lparr>console := c\<rparr>) ms acc = extractRepo_loop w ms acc"
  by (induction ms arbitrary: acc) (simp_all split: sum.splits)

lemma extractRepo_console [simp]: "extractRepo (w\<lparr>console := c\<rparr>) ms = extractRepo w ms"
  by (simp add: extractRepo_def)

lemma extractRepo_loop_total:
  assumes "\<forall>m\<in>set ms. \<exists>r. module_repo w m = Inr r"
  shows "\<exists>repos. extractRepo_loop w ms acc = Inr repos
           \<and> set repos = set acc \<union> {r. \<exists>m\<in>set ms. module_repo w m = Inr r}"
  using assms
proof (induction ms arbitrary: acc)
  case Nil
  then show ?case by simp
next
  case (Cons m ms)
  from Cons.prems obtain r where r: "module_repo w m = Inr r" by auto
  from Cons.prems have "\<forall>m\<in>set ms. \<exists>r. module_repo w m = Inr r" by simp
  from Cons.IH [OF this, of "set_add r acc"] obtain repos where
    "extractRepo_loop w ms (set_add r acc) = Inr repos"
    "set repos = set (set_add r acc) \<union> {r. \<exists>m\<in>set ms. module_repo w m = Inr r}"
    by blast
  with r show ?case by (auto simp: set_add_def split: if_splits)
qed

lemma two_members_length: "x \<in> set xs \<Longrightarrow> y \<in> set xs \<Longrightarrow> x \<noteq> y \<Longrightarrow> 1 < length xs"
  by (cases xs; cases "tl xs") auto

text \<open>
  Claim C5. When every discovered module has a declaration and two of them resolve
  to different \<open>owner/repo\<close> pairs, \<open>release\<close> fails with the error "Multiple
  repositories found in module files". The world it leaves differs from the initial
  one in the console only: no command was started, so nothing was cloned or pushed,
  and the file system is as it was (no temporary directory either).
\<close>

theorem multiple_repositories_before_clone:
  assumes "collectModules w0 (dir this) = Inr modules"
    and "\<forall>m\<in>set modules. \<exists>r. module_repo w0 m = Inr r"
    and "\<exists>m1\<in>set modules. \<exists>m2\<in>set modules. module_repo w0 m1 \<noteq> module_repo w0 m2"
  shows "release env R this w0 =
           (Inl (Error ''Multiple repositories found in module files''),
            w0\<lparr>console := console w0 @ ''Detected modules:'' # map (\<lambda>m. '' - '' @ render m) modules\<rparr>)"
proof -
  from assms(3) obtain m1 m2 where m: "m1 \<in> set modules" "m2 \<in> set modules"
    and ne: "module_repo w0 m1 \<noteq> module_repo w0 m2" by blast
  from assms(2) m obtain r1 r2 where r: "module_repo w0 m1 = Inr r1" "module_repo w0 m2 = Inr r2"
    by blast
  from extractRepo_loop_total [OF assms(2), of "[]"] obtain repos where
    repos: "extractRepo_loop w0 modules [] = Inr repos"
      "set repos = {r. \<exists>m\<in>set modules. module_repo w0 m = Inr r}"
    by auto
  have "r1 \<in> set repos" "r2 \<in> set repos" "r1 \<noteq> r2"
    using repos(2) m r ne by auto
  then have "1 < length repos" by (rule two_members_length)
  with repos(1) have ex: "extractRepo w0 modules = Inl (Error ''Multiple repositories found in module files'')"
    by (auto simp: extractRepo_def)
  show ?thesis
    using assms(1) ex
    by (simp add: release_def andThen_def lift_def console_log_def forEach_console_log)
qed


text \<open>Two modules of \<open>acme/one\<close> and \<open>acme/two\<close>: the run fails with an empty trace.\<close>

theorem multiple_repositories_before_clone_witness:
  "collectModules (sample_world sample_mixed_root) (Abs [''stage''])
     = Inr [Abs [''stage'', ''one''], Abs [''stage'', ''two'']]
   \<and> module_repo (sample_world sample_mixed_root) (Abs [''stage'', ''one'']) = Inr ''acme/one''
   \<and> module_repo (sample_world sample_mixed_root) (Abs [''stage'', ''two'']) = Inr ''acme/two''
   \<and> fst (release sample_env (stub_runner [] sample_clone) sample_releaser
            (sample_world sample_mixed_root))
       = Inl (Error ''Multiple repositories found in module files'')
   \<and> trace (snd (release sample_env (stub_runner [] sample_clone) sample_releaser
            (sample_world sample_mixed_root))) = []
   \<and> fs (snd (release sample_env (stub_runner [] sample_clone) sample_releaser
            (sample_world sample_mixed_root))) = sample_mixed_root"
proof -
  let ?w = "sample_world sample_mixed_root"
  let ?ms = "[Abs [''stage'', ''one''], Abs [''stage'', ''two'']]"
  have c: "collectModules ?w (dir sample_releaser) = Inr ?ms"
    by (simp add: collectModules_def readdirSync_def existsSync_def resolve_def
        sample_world_def sample_mixed_root_def sample_releaser_def)
  have r1: "module_repo ?w (Abs [''stage'', ''one'']) = Inr ''acme/one''"
    by (simp add: module_repo_def findModuleDeclaration_def readFileSync_def resolve_def
        js_index_def sample_world_def sample_mixed_root_def)
  have r2: "module_repo ?w (Abs [''stage'', ''two'']) = Inr ''acme/two''"
    by (simp add: module_repo_def findModuleDeclaration_def readFileSync_def resolve_def
        js_index_def sample_world_def sample_mixed_root_def)
  have a: "\<forall>m\<in>set ?ms. \<exists>r. module_repo ?w m = Inr r"
    using r1 r2 by simp
  have b: "\<exists>m1\<in>set ?ms. \<exists>m2\<in>set ?ms. module_repo ?w m1 \<noteq> module_repo ?w m2"
  proof (intro bexI)
    show "module_repo ?w (Abs [''stage'', ''one'']) \<noteq> module_repo ?w (Abs [''stage'', ''two''])"
      by (simp add: r1 r2)
  qed simp_all
  have d: "dir sample_releaser = Abs [''stage'']"
    by (simp add: sample_releaser_def)
  show ?thesis
    using multiple_repositories_before_clone [OF c a b, of sample_env "stub_runner [] sample_clone"]
      c r1 r2 d
    by (simp add: sample_world_def)
qed

section \<open>The commands of a stage\<close>

lemma only_runs_ret [simp]: "only_runs P (ret a)"
  by (simp add: only_runs_def ret_def)

lemma only_runs_throw [simp]: "only_runs P (throw e)"
  by (simp add: only_runs_def throw_def)

lemma only_runs_lift [simp]: "only_runs P (lift f)"
  by (simp add: only_runs_def lift_def)

lemma only_runs_console_log [simp]: "only_runs P (console_log l)"
  by (simp add: only_runs_def console_log_def)

lemma only_runs_chdir [simp]: "only_runs P (chdir p)"
  by (simp add: only_runs_def chdir_def split: option.splits fsnode.splits)

lemma only_runs_mkdtempSync [simp]: "only_runs P mkdtempSync"
  by (simp add: only_runs_def mkdtempSync_def split: option.splits fsnode.splits)

lemma only_runs_removeDirectory [simp]: "only_runs P (removeDirectory p b ex)"
  by (simp add: only_runs_def removeDirectory_def)

lemma only_runs_shell: "P cmd \<Longrightarrow> only_runs P (shell R cmd)"
  by (simp add: only_runs_def shell_def split: shell_result.splits)

lemma only_runs_andThen:
  assumes "only_runs P m" and "\<And>a. only_runs P (f a)"
  shows "only_runs P (andThen m f)"
  unfolding only_runs_def
proof
  fix w
  from assms(1) obtain cs where cs: "trace (snd (m w)) = trace w @ cs" "list_all P cs"
    unfolding only_runs_def by blast
  show "\<exists>cs. trace (snd (andThen m f w)) = trace w @ cs \<and> list_all P cs"
  proof (cases "m w")
    case (Pair r w')
    show ?thesis
    proof (cases r)
      case (Inl e)
      with Pair cs show ?thesis by (auto simp: andThen_def)
    next
      case (Inr a)
      from assms(2) [of a] obtain ds where
        ds: "trace (snd (f a w')) = trace w' @ ds" "list_all P ds"
        unfolding only_runs_def by blast
      with Pair Inr cs have "trace (snd (andThen m f w)) = trace w @ (cs @ ds)"
        "list_all P (cs @ ds)"
        by (simp_all add: andThen_def)
      then show ?thesis by blast
    qed
  qed
qed

lemma only_runs_tryCatch:
  assumes "only_runs P m" and "\<And>e. only_runs P (h e)"
  shows "only_runs P (tryCatch m h)"
  unfolding only_runs_def
proof
  fix w
  from assms(1) obtain cs where cs: "trace (snd (m w)) = trace w @ cs" "list_all P cs"
    unfolding only_runs_def by blast
  show "\<exists>cs. trace (snd (tryCatch m h w)) = trace w @ cs \<and> list_all P cs"
  proof (cases "m w")
    case (Pair r w')
    show ?thesis
    proof (cases r)
      case (Inr a)
      with Pair cs show ?thesis by (auto simp: tryCatch_def)
    next
      case (Inl e)
      from assms(2) [of e] obtain ds where
        ds: "trace (snd (h e w')) = trace w' @ ds" "list_all P ds"
        unfolding only_runs_def by blast
      with Pair Inl cs have "trace (snd (tryCatch m h w)) = trace w @ (cs @ ds)"
        "list_all P (cs @ ds)"
        by (simp_all add: tryCatch_def)
      then show ?thesis by blast
    qed
  qed
qed

lemma only_runs_forEach:
  assumes "\<And>x. only_runs P (f x)"
  shows "only_runs P (forEach f xs)"
proof (induction xs)
  case Nil
  show ?case by (simp add: only_runs_def)
next
  case (Cons x xs)
  have "forEach f (x # xs) = andThen (f x) (\<lambda>_. forEach f xs)"
    by (rule ext) (simp add: andThen_def split: prod.splits sum.splits)
  then show ?case using assms Cons.IH by (simp add: only_runs_andThen)
qed

lemma only_runs_mapM:
  assumes "\<And>x. only_runs P (f x)"
  shows "only_runs P (mapM f xs)"
proof (induction xs)
  case Nil
  show ?case by (simp add: only_runs_def)
next
  case (Cons x xs)
  have "mapM f (x # xs) = andThen (f x) (\<lambda>y. andThen (mapM f xs) (\<lambda>ys. ret (y # ys)))"
    by (rule ext) (simp add: andThen_def ret_def split: prod.splits sum.splits)
  then show ?case using assms Cons.IH by (simp add: only_runs_andThen)
qed

lemma only_runs_syncModules_clear: "only_runs P (syncModules_clear repoDir)"
proof -
  have "only_runs P (\<lambda>w. case readdirSync w repoDir of
           Inl e \<Rightarrow> (Inl e, w)
         | Inr ps \<Rightarrow>
             forEach (\<lambda>p w'.
                 if existsSync w' (path_join (path_join repoDir p) ''go.mod'')
                 then removeDirectory (path_join repoDir p) True [] w'
                 else (Inr (), w')) ps w)" (is "only_runs P ?m")
    unfolding only_runs_def
  proof
    fix w
    have step: "\<And>p. only_runs P (\<lambda>w'.
                 if existsSync w' (path_join (path_join repoDir p) ''go.mod'')
                 then removeDirectory (path_join repoDir p) True [] w'
                 else (Inr (), w'))"
      by (simp add: only_runs_def removeDirectory_def)
    show "\<exists>cs. trace (snd (?m w)) = trace w @ cs \<and> list_all P cs"
    proof (cases "readdirSync w repoDir")
      case (Inl e)
      then show ?thesis by simp
    next
      case (Inr ps)
      with only_runs_forEach [of P _ ps, OF step] show ?thesis
        by (simp add: only_runs_def)
    qed
  qed
  moreover have "syncModules_clear repoDir =
      (\<lambda>w. if existsSync w (path_join repoDir ''go.mod'')
            then removeDirectory repoDir False [''.git''] w else ?m w)"
    by (rule ext) (simp add: syncModules_clear_def)
  ultimately show ?thesis
    by (simp add: only_runs_def removeDirectory_def)
qed

lemma only_runs_prepare:
  assumes "\<And>s. P (''git clone '' @ s)" and "\<And>s. P (''git checkout '' @ s)"
    and "\<And>s. P (''cp -r '' @ s)"
  shows "only_runs P (release_prepare env R this)"
  unfolding release_prepare_def release_clone_def release_checkout_def syncModules_def
    cloneGitHub_def Let_def split_def
  using assms
  by (auto intro!: only_runs_andThen only_runs_tryCatch only_runs_forEach only_runs_shell
        only_runs_syncModules_clear split: option.splits)

section \<open>The unchanged tree\<close>

text \<open>
  Claim C4. When the steps up to the synchronisation have succeeded, and then
  \<open>git add .\<close> succeeds and \<open>git diff-index --exit-code HEAD --\<close> exits with status
  zero (the diff against the current commit is empty), \<open>release\<close> returns
  successfully a result without tags. These two commands are the last ones of the
  run, and no command of the whole run is a \<open>git commit\<close>, a \<open>git tag\<close> or a
  \<open>git push\<close>.
\<close>

theorem unchanged_tree_is_noop:
  assumes "release_prepare env R this w0 = (Inr (modules, repoDir), w)"
    and "R ''git add .'' w = Exit_ok o1 f1"
    and "R ''git diff-index --exit-code HEAD --''
           (w\<lparr>fs := f1, trace := trace w @ [''git add .'']\<rparr>) = Exit_ok o2 f2"
  shows "release env R this w0 =
           (Inr \<lparr>tags = None\<rparr>,
            w\<lparr>fs := f2,
              trace := trace w @ [''git add .'', ''git diff-index --exit-code HEAD --''],
              console := console w @ [''No changes. Skipping release'']\<rparr>)
       \<and> (\<exists>cs. trace w = trace w0 @ cs
              \<and> list_all (\<lambda>c. \<not> prefix ''git commit'' c \<and> \<not> prefix ''git tag'' c
                               \<and> \<not> prefix ''git push'' c) cs)"
proof -
  have u: "release_unchanged R w =
             (Inr True, w\<lparr>fs := f2,
                trace := trace w @ [''git add .'', ''git diff-index --exit-code HEAD --''],
                console := console w @ [''No changes. Skipping release'']\<rparr>)"
    using assms(2,3)
    by (simp add: release_unchanged_def tryCatch_def andThen_def shell_def console_log_def ret_def)
  have "release env R this w0 = release_finish env R this modules repoDir w"
    using assms(1) by (simp add: release_by_prepare andThen_def)
  with u have r: "release env R this w0 =
           (Inr \<lparr>tags = None\<rparr>,
            w\<lparr>fs := f2,
              trace := trace w @ [''git add .'', ''git diff-index --exit-code HEAD --''],
              console := console w @ [''No changes. Skipping release'']\<rparr>)"
    by (simp add: release_finish_def andThen_def ret_def)
  have "only_runs (\<lambda>c. \<not> prefix ''git commit'' c \<and> \<not> prefix ''git tag'' c
                        \<and> \<not> prefix ''git push'' c) (release_prepare env R this)"
    by (rule only_runs_prepare) simp_all
  then have "\<exists>cs. trace (snd (release_prepare env R this w0)) = trace w0 @ cs
              \<and> list_all (\<lambda>c. \<not> prefix ''git commit'' c \<and> \<not> prefix ''git tag'' c
                               \<and> \<not> prefix ''git push'' c) cs"
    unfolding only_runs_def by blast
  with assms(1) r show ?thesis by simp
qed

text \<open>The sample run with a runner for which every command succeeds.\<close>

theorem unchanged_tree_is_noop_witness:
  "fst (release_prepare sample_env (stub_runner [] sample_clone) sample_releaser
         (sample_world sample_root))
     = Inr ([Abs [''stage''], Abs [''stage'', ''sub'']], Abs [''tmp'', ''rel'', ''widgets''])
   \<and> fst (release sample_env (stub_runner [] sample_clone) sample_releaser
            (sample_world sample_root)) = Inr \<lparr>tags = None\<rparr>
   \<and> trace (snd (release sample_env (stub_runner [] sample_clone) sample_releaser
            (sample_world sample_root)))
       = [''git clone https://tok@github.com/acme/widgets.git /tmp/rel/widgets'',
          ''git checkout main'', ''cp -r /stage/* /tmp/rel/widgets'',
          ''git add .'', ''git diff-index --exit-code HEAD --'']"
proof -
  let ?R = "stub_runner [] sample_clone"
  let ?init = "sample_world sample_root"
  let ?w = "snd (release_prepare sample_env ?R sample_releaser ?init)"
  have f: "fst (release_prepare sample_env ?R sample_releaser ?init)
             = Inr ([Abs [''stage''], Abs [''stage'', ''sub'']], Abs [''tmp'', ''rel'', ''widgets''])"
    by code_simp
  have t: "trace ?w = [''git clone https://tok@github.com/acme/widgets.git /tmp/rel/widgets'',
          ''git checkout main'', ''cp -r /stage/* /tmp/rel/widgets'']"
    by code_simp
  have p: "release_prepare sample_env ?R sample_releaser ?init
             = (Inr ([Abs [''stage''], Abs [''stage'', ''sub'']], Abs [''tmp'', ''rel'', ''widgets'']), ?w)"
    using f by (simp add: prod_eq_iff)
  have a: "?R ''git add .'' ?w = Exit_ok [] (fs ?w)"
    by code_simp
  have d: "?R ''git diff-index --exit-code HEAD --''
             (?w\<lparr>fs := fs ?w, trace := trace ?w @ [''git add .'']\<rparr>) = Exit_ok [] (fs ?w)"
    by code_simp
  show ?thesis
    using unchanged_tree_is_noop [OF p a d] f t by simp
qed

section \<open>Checkout\<close>




section \<open>Tags and push\<close>

lemma release_after_tags:
  assumes "release_prepare env R this w0 = (Inr (modules, repoDir), w1)"
    and "release_unchanged R w1 = (Inr False, w2)"
    and "release_commit env R this modules w2 = (Inr out, w3)"
    and "release_tags R this modules repoDir w3 = (Inr tagNames, w4)"
  shows "release env R this w0 =
           andThen (release_push R this tagNames) (\<lambda>_. ret \<lparr>tags = Some tagNames\<rparr>) w4"
  using assms
  by (simp add: release_by_prepare release_finish_def release_publish_def andThen_def)

lemma forEach_map: "forEach (\<lambda>x. f (g x)) xs = forEach f (map g xs)"
proof
  fix w show "forEach (\<lambda>x. f (g x)) xs w = forEach f (map g xs) w"
    by (induction xs arbitrary: w) (simp_all split: prod.splits sum.splits)
qed

lemma release_push_normal:
  "\<not> dryRun this \<Longrightarrow>
   release_push R this tagNames =
     forEach (shell R) ((''git push origin '' @ gitBranch this)
                        # map (\<lambda>t. ''git push origin '' @ t) tagNames)"
proof
  fix w assume "\<not> dryRun this"
  then show "release_push R this tagNames w =
     forEach (shell R) ((''git push origin '' @ gitBranch this)
                        # map (\<lambda>t. ''git push origin '' @ t) tagNames) w"
    by (simp add: release_push_def andThen_def forEach_map [of "shell R", symmetric]
        split: prod.splits sum.splits)
qed

lemma mapM_list_all2:
  "mapM f xs w = (Inr ys, w') \<Longrightarrow> list_all2 (\<lambda>x y. \<exists>wa wb. f x wa = (Inr y, wb)) xs ys"
proof (induction xs arbitrary: w ys)
  case Nil
  then show ?case by simp
next
  case (Cons x xs)
  from Cons.prems obtain y w1 zs where
    "f x w = (Inr y, w1)" "mapM f xs w1 = (Inr zs, w')" "ys = y # zs"
    by (auto split: prod.splits sum.splits)
  with Cons.IH [of w1 zs] show ?case by auto
qed

lemma accepted_trace: "accepted R cs w = Some w' \<Longrightarrow> trace w' = trace w @ cs"
  by (induction cs arbitrary: w) (auto split: shell_result.splits)

lemma forEach_shell_accepted:
  "accepted R cs w = Some w' \<Longrightarrow> forEach (shell R) cs w = (Inr (), w')"
  by (induction cs arbitrary: w) (auto simp: shell_def split: shell_result.splits)

lemma forEach_shell_rejected:
  "k < length cs \<Longrightarrow> accepted R (take k cs) w = Some wk \<Longrightarrow> R (cs ! k) wk = Exit_fail cause f \<Longrightarrow>
   forEach (shell R) cs w =
     (Inl (CommandFailed (cs ! k) cause), wk\<lparr>fs := f, trace := trace wk @ [cs ! k]\<rparr>)"
proof (induction cs arbitrary: k w)
  case Nil
  then show ?case by simp
next
  case (Cons c cs)
  show ?case
  proof (cases k)
    case 0
    with Cons.prems show ?thesis by (simp add: shell_def)
  next
    case (Suc j)
    with Cons.prems obtain out g where ok: "R c w = Exit_ok out g"
      and rest: "accepted R (take j cs) (w\<lparr>fs := g, trace := trace w @ [c]\<rparr>) = Some wk"
      by (auto split: shell_result.splits)
    from Cons.prems Suc have "j < length cs" "R (cs ! j) wk = Exit_fail cause f" by simp_all
    from Cons.IH [OF this(1) rest this(2)] ok Suc show ?thesis
      by (simp add: shell_def)
  qed
qed

lemma accepted_or_rejected:
  "(\<exists>w'. accepted R cs w = Some w')
   \<or> (\<exists>k wk cause f. k < length cs \<and> accepted R (take k cs) w = Some wk
         \<and> R (cs ! k) wk = Exit_fail cause f)"
proof (induction cs arbitrary: w)
  case Nil
  show ?case by simp
next
  case (Cons c cs)
  show ?case
  proof (cases "R c w")
    case (Exit_fail cause f)
    then have "0 < length (c # cs) \<and> accepted R (take 0 (c # cs)) w = Some w
                 \<and> R ((c # cs) ! 0) w = Exit_fail cause f"
      by simp
    then show ?thesis by blast
  next
    case (Exit_ok out g)
    let ?w = "w\<lparr>fs := g, trace := trace w @ [c]\<rparr>"
    from Cons.IH [of ?w] show ?thesis
    proof
      assume "\<exists>w'. accepted R cs ?w = Some w'"
      with Exit_ok show ?thesis by simp
    next
      assume "\<exists>k wk cause f. k < length cs \<and> accepted R (take k cs) ?w = Some wk
                \<and> R (cs ! k) wk = Exit_fail cause f"
      then obtain k wk cause f where "k < length cs" "accepted R (take k cs) ?w = Some wk"
        "R (cs ! k) wk = Exit_fail cause f" by blast
      with Exit_ok have "Suc k < length (c # cs)
          \<and> accepted R (take (Suc k) (c # cs)) w = Some wk
          \<and> R ((c # cs) ! Suc k) wk = Exit_fail cause f"
        by simp
      then show ?thesis by blast
    qed
  qed
qed

text \<open>
  Claim C7. In normal mode, after the commit and the creation of the tags
  \<open>tagNames\<close> (one per module, in the order of discovery), let \<open>cmds\<close> be the list
  "push the branch, then push each tag in order". When the runner accepts all of
  \<open>cmds\<close>, the run returns the tags and these commands, in this order, are what it
  added to the trace. When the runner accepts the first \<open>k\<close> of them and rejects the
  next one, the run returns the error of that push, with the cause the command
  reported, and that push is the last command of the trace: nothing is run after
  it, it is not run again, and the error is not replaced by a success. One of the
  two cases always applies.
\<close>

theorem push_branch_then_tags:
  assumes "\<not> dryRun this"
    and "release_prepare env R this w0 = (Inr (modules, repoDir), w1)"
    and "release_unchanged R w1 = (Inr False, w2)"
    and "release_commit env R this modules w2 = (Inr out, w3)"
    and "release_tags R this modules repoDir w3 = (Inr tagNames, w4)"
    and "cmds = (''git push origin '' @ gitBranch this)
                 # map (\<lambda>t. ''git push origin '' @ t) tagNames"
  shows "list_all2 (\<lambda>m t. \<exists>wa wb. createTag R this m repoDir wa = (Inr t, wb)) modules tagNames
       \<and> (\<forall>w'. accepted R cmds w4 = Some w' \<longrightarrow>
              release env R this w0 = (Inr \<lparr>tags = Some tagNames\<rparr>, w')
            \<and> trace w' = trace w4 @ cmds)
       \<and> (\<forall>k wk cause f.
              k < length cmds \<and> accepted R (take k cmds) w4 = Some wk
                \<and> R (cmds ! k) wk = Exit_fail cause f \<longrightarrow>
              release env R this w0 =
                (Inl (CommandFailed (cmds ! k) cause),
                 wk\<lparr>fs := f, trace := trace w4 @ take (Suc k) cmds\<rparr>))
       \<and> ((\<exists>w'. accepted R cmds w4 = Some w')
          \<or> (\<exists>k wk cause f. k < length cmds \<and> accepted R (take k cmds) w4 = Some wk
                \<and> R (cmds ! k) wk = Exit_fail cause f))"
proof -
  have rel: "release env R this w0 =
               andThen (forEach (shell R) cmds) (\<lambda>_. ret \<lparr>tags = Some tagNames\<rparr>) w4"
    using release_after_tags [OF assms(2-5)] release_push_normal [OF assms(1)] assms(6)
    by simp
  have al: "list_all2 (\<lambda>m t. \<exists>wa wb. createTag R this m repoDir wa = (Inr t, wb)) modules tagNames"
    using assms(5) unfolding release_tags_def by (rule mapM_list_all2)
  have ok: "\<forall>w'. accepted R cmds w4 = Some w' \<longrightarrow>
              release env R this w0 = (Inr \<lparr>tags = Some tagNames\<rparr>, w')
            \<and> trace w' = trace w4 @ cmds"
  proof (intro allI impI)
    fix w' assume a: "accepted R cmds w4 = Some w'"
    from forEach_shell_accepted [OF a] have "forEach (shell R) cmds w4 = (Inr (), w')" .
    then have "release env R this w0 = (Inr \<lparr>tags = Some tagNames\<rparr>, w')"
      unfolding rel by (simp add: andThen_Inr ret_def)
    with accepted_trace [OF a]
    show "release env R this w0 = (Inr \<lparr>tags = Some tagNames\<rparr>, w')
            \<and> trace w' = trace w4 @ cmds"
      by simp
  qed
  have ko: "\<forall>k wk cause f.
              k < length cmds \<and> accepted R (take k cmds) w4 = Some wk
                \<and> R (cmds ! k) wk = Exit_fail cause f \<longrightarrow>
              release env R this w0 =
                (Inl (CommandFailed (cmds ! k) cause),
                 wk\<lparr>fs := f, trace := trace w4 @ take (Suc k) cmds\<rparr>)"
  proof (intro allI impI)
    fix k wk cause f
    assume h: "k < length cmds \<and> accepted R (take k cmds) w4 = Some wk
                \<and> R (cmds ! k) wk = Exit_fail cause f"
    then have k: "k < length cmds" and a: "accepted R (take k cmds) w4 = Some wk"
      and r: "R (cmds ! k) wk = Exit_fail cause f" by simp_all
    from forEach_shell_rejected [OF k a r]
    have "forEach (shell R) cmds w4 =
            (Inl (CommandFailed (cmds ! k) cause), wk\<lparr>fs := f, trace := trace wk @ [cmds ! k]\<rparr>)" .
    then have "release env R this w0 =
            (Inl (CommandFailed (cmds ! k) cause), wk\<lparr>fs := f, trace := trace wk @ [cmds ! k]\<rparr>)"
      unfolding rel by (simp add: andThen_Inl)
    moreover have "trace wk @ [cmds ! k] = trace w4 @ take (Suc k) cmds"
      using accepted_trace [OF a] k by (simp add: take_Suc_conv_app_nth)
    ultimately show "release env R this w0 =
                (Inl (CommandFailed (cmds ! k) cause),
                 wk\<lparr>fs := f, trace := trace w4 @ take (Suc k) cmds\<rparr>)"
      by simp
  qed
  show ?thesis
    using al ok ko accepted_or_rejected [of R cmds w4] by blast
qed

text \<open>
  The sample run with a changed tree. When the push of the first tag fails, the
  branch was pushed, the failing push is the last command, the tag of \<open>sub\<close> is never
  pushed and the run returns the error. When every push succeeds, the run returns
  the two tags.
\<close>

theorem push_branch_then_tags_witness:
  "fst (release sample_env
          (stub_runner [''git diff-index --exit-code HEAD --'',
                        ''git push origin stage/v1.2.3''] sample_clone)
          sample_releaser (sample_world sample_root))
     = Inl (CommandFailed ''git push origin stage/v1.2.3'' ''exit 1'')
   \<and> drop 8 (trace (snd (release sample_env
          (stub_runner [''git diff-index --exit-code HEAD --'',
                        ''git push origin stage/v1.2.3''] sample_clone)
          sample_releaser (sample_world sample_root))))
     = [''git tag -a stage/v1.2.3 -m stage/v1.2.3'', ''git tag -a sub/v0.1.0 -m sub/v0.1.0'',
        ''git push origin main'', ''git push origin stage/v1.2.3'']
   \<and> fst (release sample_env
          (stub_runner [''git diff-index --exit-code HEAD --''] sample_clone)
          sample_releaser (sample_world sample_root))
     = Inr \<lparr>tags = Some [''stage/v1.2.3'', ''sub/v0.1.0'']\<rparr>
   \<and> drop 10 (trace (snd (release sample_env
          (stub_runner [''git diff-index --exit-code HEAD --''] sample_clone)
          sample_releaser (sample_world sample_root))))
     = [''git push origin main'', ''git push origin stage/v1.2.3'',
        ''git push origin sub/v0.1.0'']"
proof -
  let ?R = "stub_runner [''git diff-index --exit-code HEAD --'',
                         ''git push origin stage/v1.2.3''] sample_clone"
  let ?Q = "stub_runner [''git diff-index --exit-code HEAD --''] sample_clone"
  let ?init = "sample_world sample_root"
  let ?ms = "[Abs [''stage''], Abs [''stage'', ''sub'']]"
  let ?rd = "Abs [''tmp'', ''rel'', ''widgets'']"
  let ?ts = "[''stage/v1.2.3'', ''sub/v0.1.0'']"
  let ?cmds = "[''git push origin main'', ''git push origin stage/v1.2.3'',
                ''git push origin sub/v0.1.0'']"
  let ?a = "snd (release_prepare sample_env ?R sample_releaser ?init)"
  let ?b = "snd (release_unchanged ?R ?a)"
  let ?c = "snd (release_commit sample_env ?R sample_releaser ?ms ?b)"
  let ?d = "snd (release_tags ?R sample_releaser ?ms ?rd ?c)"
  let ?e = "?d\<lparr>fs := fs ?d, trace := trace ?d @ [''git push origin main'']\<rparr>"
  let ?a' = "snd (release_prepare sample_env ?Q sample_releaser ?init)"
  let ?b' = "snd (release_unchanged ?Q ?a')"
  let ?c' = "snd (release_commit sample_env ?Q sample_releaser ?ms ?b')"
  let ?d' = "snd (release_tags ?Q sample_releaser ?ms ?rd ?c')"
  let ?e' = "?d'\<lparr>fs := fs ?d', trace := trace ?d' @ ?cmds\<rparr>"
  have n: "\<not> dryRun sample_releaser"
    by (simp add: sample_releaser_def)
  have cm: "?cmds = (''git push origin '' @ gitBranch sample_releaser)
                      # map (\<lambda>t. ''git push origin '' @ t) ?ts"
    by (simp add: sample_releaser_def)
  have "fst (release_prepare sample_env ?R sample_releaser ?init) = Inr (?ms, ?rd)"
    by code_simp
  then have p: "release_prepare sample_env ?R sample_releaser ?init = (Inr (?ms, ?rd), ?a)"
    by (simp add: prod_eq_iff)
  have "fst (release_unchanged ?R ?a) = Inr False"
    by code_simp
  then have u: "release_unchanged ?R ?a = (Inr False, ?b)"
    by (simp add: prod_eq_iff)
  have "fst (release_commit sample_env ?R sample_releaser ?ms ?b) = Inr []"
    by code_simp
  then have c: "release_commit sample_env ?R sample_releaser ?ms ?b = (Inr [], ?c)"
    by (simp add: prod_eq_iff)
  have "fst (release_tags ?R sample_releaser ?ms ?rd ?c) = Inr ?ts"
    by code_simp
  then have t: "release_tags ?R sample_releaser ?ms ?rd ?c = (Inr ?ts, ?d)"
    by (simp add: prod_eq_iff)
  have acc: "accepted ?R (take 1 ?cmds) ?d = Some ?e"
    by code_simp
  have rej: "?R (?cmds ! 1) ?e = Exit_fail ''exit 1'' (fs ?d)"
    by code_simp
  have tr: "drop 8 (trace ?d)
       = [''git tag -a stage/v1.2.3 -m stage/v1.2.3'', ''git tag -a sub/v0.1.0 -m sub/v0.1.0'']"
    by code_simp
  have len: "length (trace ?d) = 10"
    by code_simp
  from push_branch_then_tags [OF n p u c t cm] acc rej
  have r1: "release sample_env ?R sample_releaser ?init =
              (Inl (CommandFailed (?cmds ! 1) ''exit 1''),
               ?e\<lparr>fs := fs ?d, trace := trace ?d @ take (Suc 1) ?cmds\<rparr>)"
    by (elim conjE allE [of _ 1] allE [of _ ?e] allE [of _ "''exit 1''"] allE [of _ "fs ?d"])
      simp
  have "fst (release_prepare sample_env ?Q sample_releaser ?init) = Inr (?ms, ?rd)"
    by code_simp
  then have p': "release_prepare sample_env ?Q sample_releaser ?init = (Inr (?ms, ?rd), ?a')"
    by (simp add: prod_eq_iff)
  have "fst (release_unchanged ?Q ?a') = Inr False"
    by code_simp
  then have u': "release_unchanged ?Q ?a' = (Inr False, ?b')"
    by (simp add: prod_eq_iff)
  have "fst (release_commit sample_env ?Q sample_releaser ?ms ?b') = Inr []"
    by code_simp
  then have c': "release_commit sample_env ?Q sample_releaser ?ms ?b' = (Inr [], ?c')"
    by (simp add: prod_eq_iff)
  have "fst (release_tags ?Q sample_releaser ?ms ?rd ?c') = Inr ?ts"
    by code_simp
  then have t': "release_tags ?Q sample_releaser ?ms ?rd ?c' = (Inr ?ts, ?d')"
    by (simp add: prod_eq_iff)
  have acc': "accepted ?Q ?cmds ?d' = Some ?e'"
    by code_simp
  have len': "length (trace ?d') = 10"
    by code_simp
  from push_branch_then_tags [OF n p' u' c' t' cm] acc'
  have r2: "release sample_env ?Q sample_releaser ?init = (Inr \<lparr>tags = Some ?ts\<rparr>, ?e')"
    by blast
  show ?thesis
    using r1 r2 tr len len' by simp
qed

section \<open>Dry run\<close>

lemma extractVersion_dryRun [simp]:
  "extractVersion (this\<lparr>dryRun := b\<rparr>) w m = extractVersion this w m"
  by (simp add: extractVersion_def)

lemma createTag_dryRun [simp]:
  "createTag R (this\<lparr>dryRun := b\<rparr>) m repoDir = createTag R this m repoDir"
  by (simp add: createTag_def)

lemma release_tags_dryRun [simp]:
  "release_tags R (this\<lparr>dryRun := b\<rparr>) modules repoDir = release_tags R this modules repoDir"
  by (simp add: release_tags_def)

lemma createReleaseMessage_loop_dryRun [simp]:
  "createReleaseMessage_loop (this\<lparr>dryRun := b\<rparr>) w ms msg = createReleaseMessage_loop this w ms msg"
  by (induction ms arbitrary: msg) (simp_all add: Let_def split: sum.splits)

lemma createReleaseMessage_dryRun [simp]:
  "createReleaseMessage (this\<lparr>dryRun := b\<rparr>) w ms = createReleaseMessage this w ms"
  by (simp add: createReleaseMessage_def Let_def split: option.splits)

lemma release_commit_dryRun [simp]:
  "release_commit env R (this\<lparr>dryRun := b\<rparr>) modules = release_commit env R this modules"
  by (cases "env ''GIT_COMMIT_MESSAGE''") (simp_all add: release_commit_def)

lemma release_prepare_dryRun [simp]:
  "release_prepare env R (this\<lparr>dryRun := b\<rparr>) = release_prepare env R this"
  by (simp add: release_prepare_def release_clone_def release_checkout_def syncModules_def)








section \<open>Tag names\<close>

text \<open>
  Claim C2 as stated does not hold. The sample staging directory \<open>/stage\<close> holds
  \<open>go.mod\<close>, so it is discovered as the root module, at version \<open>1.2.3\<close>; the
  repository is \<open>acme/widgets\<close>. The tag of the root module is \<open>stage/v1.2.3\<close>, not
  \<open>v1.2.3\<close>.
\<close>

theorem root_module_tag_counterexample:
  "existsSync (sample_world sample_root) (path_join (dir sample_releaser) ''go.mod'')
   \<and> collectModules (sample_world sample_root) (dir sample_releaser)
       = Inr [Abs [''stage''], Abs [''stage'', ''sub'']]
   \<and> extractVersion sample_releaser (sample_world sample_root) (dir sample_releaser)
       = Inr ''1.2.3''
   \<and> fst (release sample_env (stub_runner [''git diff-index --exit-code HEAD --''] sample_clone)
            sample_releaser (sample_world sample_root))
       = Inr \<lparr>tags = Some [''stage/v1.2.3'', ''sub/v0.1.0'']\<rparr>"
  by code_simp

text \<open>
  Claim C2, amended. The tag of a module is decided by the name of its directory,
  not by its place in the staging directory. Let \<open>v\<close> be the version resolved for the
  module \<open>m\<close> in the world \<open>w\<close> in which its tag is created. When the basename of \<open>m\<close>
  is the basename of the workspace directory (the name of the repository), the tag
  is \<open>v\<close> prefixed with the letter \<open>v\<close>; otherwise it is the basename of \<open>m\<close>, a
  slash, and the same. \<open>createTag\<close> runs \<open>git tag -a <tag> -m <tag>\<close> and returns
  the tag when the command succeeds and the error of the command when it fails;
  when no version is resolved it returns that error and runs nothing. The tags of
  a run are those of its modules, created in the order of the modules, each in the
  world that the tag before it left.
\<close>

theorem tag_named_after_directory:
  "(\<forall>v. extractVersion this w m = Inr v \<longrightarrow>
      createTag R this m repoDir w =
        (let t = (if basename m = basename repoDir then ''v'' @ v
                  else basename m @ ''/v'' @ v);
             cmd = ''git tag -a '' @ t @ '' -m '' @ t
         in case R cmd w of
              Exit_ok out f \<Rightarrow> (Inr t, w\<lparr>fs := f, trace := trace w @ [cmd]\<rparr>)
            | Exit_fail cause f \<Rightarrow>
                (Inl (CommandFailed cmd cause), w\<lparr>fs := f, trace := trace w @ [cmd]\<rparr>)))
   \<and> (\<forall>e. extractVersion this w m = Inl e \<longrightarrow> createTag R this m repoDir w = (Inl e, w))
   \<and> release_tags R this [] repoDir w = (Inr [], w)
   \<and> release_tags R this (m # ms) repoDir w =
       (case createTag R this m repoDir w of
          (Inl e, w1) \<Rightarrow> (Inl e, w1)
        | (Inr t, w1) \<Rightarrow>
            (case release_tags R this ms repoDir w1 of
               (Inl e, w2) \<Rightarrow> (Inl e, w2)
             | (Inr ts, w2) \<Rightarrow> (Inr (t # ts), w2)))"
proof (intro conjI allI impI)
  fix v assume "extractVersion this w m = Inr v"
  then show "createTag R this m repoDir w =
        (let t = (if basename m = basename repoDir then ''v'' @ v
                  else basename m @ ''/v'' @ v);
             cmd = ''git tag -a '' @ t @ '' -m '' @ t
         in case R cmd w of
              Exit_ok out f \<Rightarrow> (Inr t, w\<lparr>fs := f, trace := trace w @ [cmd]\<rparr>)
            | Exit_fail cause f \<Rightarrow>
                (Inl (CommandFailed cmd cause), w\<lparr>fs := f, trace := trace w @ [cmd]\<rparr>))"
    by (simp add: createTag_def andThen_def lift_def shell_def ret_def Let_def
        split: shell_result.splits)
next
  fix e assume "extractVersion this w m = Inl e"
  then show "createTag R this m repoDir w = (Inl e, w)"
    by (simp add: createTag_def andThen_def lift_def Let_def)
next
  show "release_tags R this [] repoDir w = (Inr [], w)"
    by (simp add: release_tags_def)
next
  show "release_tags R this (m # ms) repoDir w =
       (case createTag R this m repoDir w of
          (Inl e, w1) \<Rightarrow> (Inl e, w1)
        | (Inr t, w1) \<Rightarrow>
            (case release_tags R this ms repoDir w1 of
               (Inl e, w2) \<Rightarrow> (Inl e, w2)
             | (Inr ts, w2) \<Rightarrow> (Inr (t # ts), w2)))"
    by (simp add: release_tags_def split: prod.splits sum.splits)
qed

text \<open>
  A staging directory \<open>/widgets\<close>, named like the repository \<open>acme/widgets\<close>, with the
  version file \<open>1.2.3\<close>: its tag is \<open>v1.2.3\<close>. Its child \<open>sub\<close> at \<open>0.1.0\<close> is tagged
  \<open>sub/v0.1.0\<close>, and its child \<open>docs\<close>, which has no version, is not tagged.
\<close>

theorem tag_named_after_directory_witness:
  "extractVersion sample_releaser (sample_world sample_named_root) (Abs [''widgets''])
     = Inr ''1.2.3''
   \<and> createTag (stub_runner [] sample_clone) sample_releaser (Abs [''widgets''])
        (Abs [''tmp'', ''rel'', ''widgets'']) (sample_world sample_named_root)
     = (Inr ''v1.2.3'',
        (sample_world sample_named_root)\<lparr>trace := [''git tag -a v1.2.3 -m v1.2.3'']\<rparr>)
   \<and> extractVersion sample_releaser (sample_world sample_named_root) (Abs [''widgets'', ''sub''])
     = Inr ''0.1.0''
   \<and> createTag (stub_runner [] sample_clone) sample_releaser (Abs [''widgets'', ''sub''])
        (Abs [''tmp'', ''rel'', ''widgets'']) (sample_world sample_named_root)
     = (Inr ''sub/v0.1.0'',
        (sample_world sample_named_root)\<lparr>trace := [''git tag -a sub/v0.1.0 -m sub/v0.1.0'']\<rparr>)
   \<and> createTag (stub_runner [] sample_clone) sample_releaser (Abs [''widgets'', ''docs''])
        (Abs [''tmp'', ''rel'', ''widgets'']) (sample_world sample_named_root)
     = (Inl (Error ''Unable to determine version of module /widgets/docs. Either include a 'version' file, or specify a global version using the VERSION environment variable.''),
        sample_world sample_named_root)
   \<and> fst (release_tags (stub_runner [] sample_clone) sample_releaser
            [Abs [''widgets''], Abs [''widgets'', ''sub'']] (Abs [''tmp'', ''rel'', ''widgets''])
            (sample_world sample_named_root))
     = Inr [''v1.2.3'', ''sub/v0.1.0'']"
proof -
  let ?R = "stub_runner [] sample_clone"
  let ?rd = "Abs [''tmp'', ''rel'', ''widgets'']"
  let ?w = "sample_world sample_named_root"
  have v1: "extractVersion sample_releaser ?w (Abs [''widgets'']) = Inr ''1.2.3''"
    by code_simp
  have v2: "extractVersion sample_releaser ?w (Abs [''widgets'', ''sub'']) = Inr ''0.1.0''"
    by code_simp
  have v3: "extractVersion sample_releaser ?w (Abs [''widgets'', ''docs''])
     = Inl (Error ''Unable to determine version of module /widgets/docs. Either include a 'version' file, or specify a global version using the VERSION environment variable.'')"
    by code_simp
  have a1: "?R ''git tag -a v1.2.3 -m v1.2.3'' ?w = Exit_ok [] (fs ?w)"
    by code_simp
  have a2: "?R ''git tag -a sub/v0.1.0 -m sub/v0.1.0'' ?w = Exit_ok [] (fs ?w)"
    by code_simp
  have e: "trace ?w = []"
    by (simp add: sample_world_def)
  have t1: "createTag ?R sample_releaser (Abs [''widgets'']) ?rd ?w
     = (Inr ''v1.2.3'', ?w\<lparr>trace := [''git tag -a v1.2.3 -m v1.2.3'']\<rparr>)"
    using tag_named_after_directory [where this = sample_releaser and w = ?w
        and m = "Abs [''widgets'']" and R = ?R and repoDir = ?rd] v1 a1 e
    by (simp add: Let_def)
  have t2: "createTag ?R sample_releaser (Abs [''widgets'', ''sub'']) ?rd ?w
     = (Inr ''sub/v0.1.0'', ?w\<lparr>trace := [''git tag -a sub/v0.1.0 -m sub/v0.1.0'']\<rparr>)"
    using tag_named_after_directory [where this = sample_releaser and w = ?w
        and m = "Abs [''widgets'', ''sub'']" and R = ?R and repoDir = ?rd] v2 a2 e
    by (simp add: Let_def)
  have t3: "createTag ?R sample_releaser (Abs [''widgets'', ''docs'']) ?rd ?w
     = (Inl (Error ''Unable to determine version of module /widgets/docs. Either include a 'version' file, or specify a global version using the VERSION environment variable.''), ?w)"
    using tag_named_after_directory [where this = sample_releaser and w = ?w
        and m = "Abs [''widgets'', ''docs'']" and R = ?R and repoDir = ?rd] v3
    by simp
  have l: "fst (release_tags ?R sample_releaser
            [Abs [''widgets''], Abs [''widgets'', ''sub'']] ?rd ?w)
     = Inr [''v1.2.3'', ''sub/v0.1.0'']"
    by code_simp
  show ?thesis
    using v1 v2 t1 t2 t3 l by simp
qed

section \<open>Synchronisation\<close>

subsection \<open>Lookup after a change of the tree\<close>

lemma fs_alter_Cons_Some: "\<exists>n'. fs_alter f (s # ss) n = Some n'"
  by (cases n) simp_all

lemma fs_lookup_append:
  "fs_lookup n (a @ b) = (case fs_lookup n a of None \<Rightarrow> None | Some x \<Rightarrow> fs_lookup x b)"
  by (induction a arbitrary: n) (auto split: fsnode.splits option.splits)

lemma map_of_map_filter_other:
  "t \<noteq> s \<Longrightarrow>
   map_of (List.map_filter (\<lambda>(k, c). if k = s then map_option (Pair k) (h c) else Some (k, c)) cs) t
     = map_of cs t"
  by (induction cs) (auto simp: List.map_filter_simps split: option.splits if_splits)

lemma map_of_map_filter_same:
  "map_of cs s = Some c \<Longrightarrow> h c = Some c' \<Longrightarrow>
   map_of (List.map_filter (\<lambda>(k, c). if k = s then map_option (Pair k) (h c) else Some (k, c)) cs) s
     = Some c'"
  by (induction cs) (auto simp: List.map_filter_simps split: option.splits if_splits)

lemma map_of_map_filter_none:
  "map_of cs s = None \<Longrightarrow>
   map_of (List.map_filter (\<lambda>(k, c). if k = s then map_option (Pair k) (h c) else Some (k, c)) cs) s
     = None"
  by (induction cs) (auto simp: List.map_filter_simps split: option.splits if_splits)

lemma map_filter_remove:
  "distinct (map fst cs) \<Longrightarrow> map_of cs s = Some c \<Longrightarrow> h c = None \<Longrightarrow>
   List.map_filter (\<lambda>(k, c). if k = s then map_option (Pair k) (h c) else Some (k, c)) cs
     = filter (\<lambda>(k, c). k \<noteq> s) cs"
proof (induction cs)
  case Nil
  then show ?case by simp
next
  case (Cons kc cs)
  obtain k d where kc: "kc = (k, d)" by (cases kc)
  show ?case
  proof (cases "k = s")
    case True
    with Cons.prems kc have d: "d = c" and notin: "s \<notin> fst ` set cs" by auto
    have "List.map_filter (\<lambda>(k, c). if k = s then map_option (Pair k) (h c) else Some (k, c)) cs = cs"
      using notin by (induction cs) (auto simp: List.map_filter_simps)
    moreover have "filter (\<lambda>(k, c). k \<noteq> s) cs = cs"
      using notin by (induction cs) auto
    ultimately show ?thesis using True kc d Cons.prems(3) by (simp add: List.map_filter_simps)
  next
    case False
    with Cons kc show ?thesis by (simp add: List.map_filter_simps)
  qed
qed

lemma fs_lookup_apply_other:
  "\<not> prefix p q \<Longrightarrow> \<not> prefix q p \<Longrightarrow> fs_lookup (fs_apply f p n) q = fs_lookup n q"
proof (induction p arbitrary: q n)
  case Nil
  then show ?case by simp
next
  case (Cons s ss)
  from Cons.prems(2) obtain t tt where q: "q = t # tt" by (cases q) auto
  show ?case
  proof (cases n)
    case (File c)
    then show ?thesis by (simp add: fs_apply_def)
  next
    case (Dir cs)
    let ?g = "\<lambda>(k, c). if k = s then map_option (Pair k) (fs_alter f ss c) else Some (k, c)"
    have ap: "fs_apply f (s # ss) n = Dir (List.map_filter ?g cs)"
      using Dir by (simp add: fs_apply_def)
    show ?thesis
    proof (cases "t = s")
      case False
      then show ?thesis using ap Dir q by (simp add: map_of_map_filter_other)
    next
      case True
      with Cons.prems q have np: "\<not> prefix ss tt" "\<not> prefix tt ss" by simp_all
      then obtain u us where ss: "ss = u # us" by (cases ss) auto
      show ?thesis
      proof (cases "map_of cs s")
        case None
        then show ?thesis using ap Dir q True by (simp add: map_of_map_filter_none)
      next
        case (Some c)
        from fs_alter_Cons_Some [of f u us c] ss obtain c' where c': "fs_alter f ss c = Some c'"
          by auto
        then have "fs_apply f ss c = c'" by (simp add: fs_apply_def)
        with Cons.IH [OF np, of c] have "fs_lookup c' tt = fs_lookup c tt" by simp
        moreover have "map_of (List.map_filter ?g cs) s = Some c'"
          using Some c' by (rule map_of_map_filter_same)
        ultimately show ?thesis using ap Dir q True Some by simp
      qed
    qed
  qed
qed

lemma fs_lookup_apply_at:
  assumes "fs_lookup n ws = Some x" and "\<forall>c. fs_alter f r c \<noteq> None"
  shows "fs_lookup (fs_apply f (ws @ r) n) ws = fs_alter f r x"
  using assms(1)
proof (induction ws arbitrary: n)
  case Nil
  then have "x = n" by simp
  moreover from assms(2) obtain y where "fs_alter f r n = Some y" by auto
  ultimately show ?case by (simp add: fs_apply_def)
next
  case (Cons s ss)
  from Cons.prems obtain cs c where n: "n = Dir cs" and c: "map_of cs s = Some c"
    and x: "fs_lookup c ss = Some x"
    by (auto split: fsnode.splits option.splits)
  let ?g = "\<lambda>(k, c). if k = s then map_option (Pair k) (fs_alter f (ss @ r) c) else Some (k, c)"
  have "fs_alter f (ss @ r) c \<noteq> None"
  proof (cases "ss @ r")
    case Nil
    then show ?thesis using assms(2) by simp
  next
    case (Cons u us)
    then show ?thesis using fs_alter_Cons_Some [of f u us c] by auto
  qed
  then obtain c' where c': "fs_alter f (ss @ r) c = Some c'" by auto
  then have ap: "fs_apply f (ss @ r) c = c'" by (simp add: fs_apply_def)
  have "map_of (List.map_filter ?g cs) s = Some c'"
    using c c' by (rule map_of_map_filter_same)
  moreover have "fs_lookup c' ss = fs_alter f r x"
    using Cons.IH [OF x] ap by simp
  ultimately show ?case using n by (simp add: fs_apply_def)
qed

subsection \<open>The loop over the workspace entries\<close>

lemma resolve_path_join: "p \<noteq> [] \<Longrightarrow> resolve w (path_join d p) = resolve w d @ [p]"
  by (cases d) (simp_all add: resolve_def)

lemma resolve_fs_update [simp]: "resolve (w\<lparr>fs := f\<rparr>) p = resolve w p"
  by (cases p) (simp_all add: resolve_def)

lemma filter_step_module:
  assumes "distinct (map fst ci)" and "map_of ci p = Some c" and "M c"
  shows "filter (\<lambda>(k, c). \<not> (k \<in> set ps \<and> M c)) (filter (\<lambda>(k, c). k \<noteq> p) ci)
           = filter (\<lambda>(k, c). \<not> (k \<in> set (p # ps) \<and> M c)) ci"
proof -
  have "\<And>k d. (k, d) \<in> set ci \<Longrightarrow> k = p \<Longrightarrow> M d"
    using assms by auto
  then show ?thesis
    unfolding filter_filter by (intro filter_cong) auto
qed

lemma filter_step_other:
  assumes "distinct (map fst ci)" and "\<forall>c. map_of ci p = Some c \<longrightarrow> \<not> M c"
  shows "filter (\<lambda>(k, c). \<not> (k \<in> set ps \<and> M c)) ci
           = filter (\<lambda>(k, c). \<not> (k \<in> set (p # ps) \<and> M c)) ci"
proof -
  have "\<And>k d. (k, d) \<in> set ci \<Longrightarrow> k = p \<Longrightarrow> \<not> M d"
    using assms by auto
  then show ?thesis
    by (intro filter_cong) auto
qed

lemma outside_of_child:
  "\<not> prefix ws q \<Longrightarrow> \<not> prefix q ws \<Longrightarrow> \<not> prefix (ws @ [p]) q \<and> \<not> prefix q (ws @ [p])"
  by (auto simp: prefix_snoc dest: append_prefixD)

lemma clear_step:
  assumes ws: "resolve w repoDir = ws"
    and dir: "fs_lookup (fs w) ws = Some (Dir ci)"
    and dist: "distinct (map fst ci)"
    and p: "p \<noteq> []"
  shows "\<exists>f'. (if existsSync w (path_join (path_join repoDir p) ''go.mod'')
               then removeDirectory (path_join repoDir p) True [] w
               else (Inr (), w)) = (Inr (), w\<lparr>fs := f'\<rparr>)
           \<and> fs_lookup f' ws =
               Some (Dir (if \<exists>c. map_of ci p = Some c \<and> holds_declaration c
                          then filter (\<lambda>(k, c). k \<noteq> p) ci else ci))
           \<and> (\<forall>q. \<not> prefix ws q \<and> \<not> prefix q ws \<longrightarrow> fs_lookup f' q = fs_lookup (fs w) q)"
proof -
  let ?rm = "\<lambda>n. case n of
                   File c \<Rightarrow> Some n
                 | Dir cs \<Rightarrow>
                     (let kept = filter (\<lambda>(k, c). k \<in> set []) cs
                      in if True \<and> kept = [] then None else Some (Dir kept))"
  have r1: "resolve w (path_join repoDir p) = ws @ [p]"
    using ws p by (simp add: resolve_path_join)
  have r2: "resolve w (path_join (path_join repoDir p) ''go.mod'') = ws @ [p, ''go.mod'']"
    using r1 by (simp add: resolve_path_join)
  have ex: "existsSync w (path_join (path_join repoDir p) ''go.mod'')
              \<longleftrightarrow> (\<exists>c. map_of ci p = Some c \<and> holds_declaration c)"
    using dir by (simp add: existsSync_def r2 holds_declaration_def fs_lookup_append split: option.splits)
  show ?thesis
  proof (cases "\<exists>c. map_of ci p = Some c \<and> holds_declaration c")
    case False
    with ex dir show ?thesis
      by (intro exI [of _ "fs w"]) auto
  next
    case True
    then obtain c where c: "map_of ci p = Some c" "holds_declaration c" by blast
    then obtain ds where ds: "c = Dir ds" by (cases c) (auto simp: holds_declaration_def)
    let ?f' = "fs_apply ?rm (ws @ [p]) (fs w)"
    have rmc: "fs_alter ?rm [] c = None" using ds by simp
    have tot: "\<forall>c. fs_alter ?rm [p] c \<noteq> None"
      using fs_alter_Cons_Some [of ?rm p "[]"] by auto
    have "fs_lookup ?f' ws = fs_alter ?rm [p] (Dir ci)"
      using dir tot by (rule fs_lookup_apply_at)
    also have "\<dots> = Some (Dir (List.map_filter
        (\<lambda>(k, c). if k = p then map_option (Pair k) (fs_alter ?rm [] c) else Some (k, c)) ci))"
      by simp
    also have "List.map_filter
        (\<lambda>(k, c). if k = p then map_option (Pair k) (fs_alter ?rm [] c) else Some (k, c)) ci
        = filter (\<lambda>(k, c). k \<noteq> p) ci"
      using dist c(1) rmc by (rule map_filter_remove)
    finally have at: "fs_lookup ?f' ws = Some (Dir (filter (\<lambda>(k, c). k \<noteq> p) ci))" .
    have out: "\<forall>q. \<not> prefix ws q \<and> \<not> prefix q ws \<longrightarrow> fs_lookup ?f' q = fs_lookup (fs w) q"
      using outside_of_child [of ws _ p] by (auto intro: fs_lookup_apply_other)
    have run: "(if existsSync w (path_join (path_join repoDir p) ''go.mod'')
               then removeDirectory (path_join repoDir p) True [] w
               else (Inr (), w)) = (Inr (), w\<lparr>fs := ?f'\<rparr>)"
      using ex True by (simp add: removeDirectory_def r1)
    show ?thesis
      using run at out True by (intro exI [of _ ?f']) simp
  qed
qed

lemma clear_loop:
  assumes "resolve w repoDir = ws"
    and "fs_lookup (fs w) ws = Some (Dir ci)"
    and "distinct (map fst ci)"
    and "[] \<notin> set ps"
  shows "\<exists>f'. forEach (\<lambda>p w'.
                 if existsSync w' (path_join (path_join repoDir p) ''go.mod'')
                 then removeDirectory (path_join repoDir p) True [] w'
                 else (Inr (), w')) ps w = (Inr (), w\<lparr>fs := f'\<rparr>)
           \<and> fs_lookup f' ws =
               Some (Dir (filter (\<lambda>(k, c). \<not> (k \<in> set ps \<and> holds_declaration c)) ci))
           \<and> (\<forall>q. \<not> prefix ws q \<and> \<not> prefix q ws \<longrightarrow> fs_lookup f' q = fs_lookup (fs w) q)"
  using assms
proof (induction ps arbitrary: w ci)
  case Nil
  then show ?case by (intro exI [of _ "fs w"]) simp
next
  case (Cons p ps)
  let ?M = "\<lambda>c. holds_declaration c"
  let ?body = "\<lambda>p w'.
                 if existsSync w' (path_join (path_join repoDir p) ''go.mod'')
                 then removeDirectory (path_join repoDir p) True [] w'
                 else (Inr (), w')"
  let ?c1 = "if \<exists>c. map_of ci p = Some c \<and> ?M c then filter (\<lambda>(k, c). k \<noteq> p) ci else ci"
  from Cons.prems(4) have p: "p \<noteq> []" and ps: "[] \<notin> set ps" by auto
  from clear_step [OF Cons.prems(1-3) p] obtain f1 where
    s1: "?body p w = (Inr (), w\<lparr>fs := f1\<rparr>)"
    and a1: "fs_lookup f1 ws = Some (Dir ?c1)"
    and o1: "\<forall>q. \<not> prefix ws q \<and> \<not> prefix q ws \<longrightarrow> fs_lookup f1 q = fs_lookup (fs w) q"
    by blast
  let ?w1 = "w\<lparr>fs := f1\<rparr>"
  have r1: "resolve ?w1 repoDir = ws" using Cons.prems(1) by simp
  have d1: "distinct (map fst ?c1)" using Cons.prems(3) by (simp add: distinct_map_filter)
  have l1: "fs_lookup (fs ?w1) ws = Some (Dir ?c1)" using a1 by simp
  from Cons.IH [OF r1 l1 d1 ps] obtain f2 where
    s2: "forEach ?body ps ?w1 = (Inr (), ?w1\<lparr>fs := f2\<rparr>)"
    and a2: "fs_lookup f2 ws = Some (Dir (filter (\<lambda>(k, c). \<not> (k \<in> set ps \<and> ?M c)) ?c1))"
    and o2: "\<forall>q. \<not> prefix ws q \<and> \<not> prefix q ws \<longrightarrow> fs_lookup f2 q = fs_lookup (fs ?w1) q"
    by blast
  have run: "forEach ?body (p # ps) w = (Inr (), w\<lparr>fs := f2\<rparr>)"
    using s1 s2 by simp
  have eq: "filter (\<lambda>(k, c). \<not> (k \<in> set ps \<and> ?M c)) ?c1
              = filter (\<lambda>(k, c). \<not> (k \<in> set (p # ps) \<and> ?M c)) ci"
  proof (cases "\<exists>c. map_of ci p = Some c \<and> ?M c")
    case True
    then obtain c where "map_of ci p = Some c" "?M c" by blast
    from filter_step_module [of ci p c ?M ps, OF Cons.prems(3) this] True show ?thesis by auto
  next
    case False
    then have "\<forall>c. map_of ci p = Some c \<longrightarrow> \<not> ?M c" by blast
    from filter_step_other [of ci p ?M ps, OF Cons.prems(3) this] False show ?thesis by auto
  qed
  have out: "\<forall>q. \<not> prefix ws q \<and> \<not> prefix q ws \<longrightarrow> fs_lookup f2 q = fs_lookup (fs w) q"
    using o1 o2 by simp
  show ?case
    using run a2 eq out by (intro exI [of _ f2]) simp
qed


subsection \<open>What the synchronisation clears\<close>

text \<open>
  Claim C1 as stated does not hold: the staging directory of the sample has the
  declaration file at its root, and the file \<open>README\<close> of the cloned workspace, which
  is not version-control metadata, is still there after the synchronisation.
\<close>

theorem syncModules_staging_counterexample:
  "existsSync (sample_world sample_cloned_root) (path_join (dir sample_releaser) ''go.mod'')
   \<and> fst (syncModules (stub_runner [] sample_clone) sample_releaser
            (Abs [''tmp'', ''rel'', ''widgets'']) (sample_world sample_cloned_root)) = Inr ()
   \<and> fs_lookup (fs (snd (syncModules (stub_runner [] sample_clone) sample_releaser
            (Abs [''tmp'', ''rel'', ''widgets'']) (sample_world sample_cloned_root))))
        [''tmp'', ''rel'', ''widgets'', ''README''] = Some (File ''hello'')"
  by code_simp

text \<open>
  Claim C1, amended. The choice is made on the cloned workspace, not on the staging
  directory. Let the workspace \<open>repoDir\<close> be a directory with the entries \<open>cs\<close>
  (distinct, non-empty names). The clearing step succeeds and changes the file
  system only. When the workspace holds \<open>go.mod\<close> at its root, the workspace keeps
  its entries named \<open>.git\<close> and nothing else. Otherwise the workspace loses exactly
  its entries that directly hold a \<open>go.mod\<close> (the submodule directories), and every
  other entry is the node it was. In both cases every path outside the workspace
  resolves as before, and \<open>syncModules\<close> then runs
  \<open>cp -r <staging>/* <workspace>\<close> on the cleared tree and returns its outcome.
\<close>

theorem syncModules_decided_by_workspace:
  assumes "fs_lookup (fs w) (resolve w repoDir) = Some (Dir cs)"
    and "distinct (map fst cs)"
    and "[] \<notin> set (map fst cs)"
  shows "\<exists>f'. syncModules_clear repoDir w = (Inr (), w\<lparr>fs := f'\<rparr>)
           \<and> fs_lookup f' (resolve w repoDir) =
               Some (Dir (if existsSync w (path_join repoDir ''go.mod'')
                          then filter (\<lambda>(k, c). k = ''.git'') cs
                          else filter (\<lambda>(k, c). \<not> holds_declaration c) cs))
           \<and> (\<forall>q. \<not> prefix (resolve w repoDir) q \<and> \<not> prefix q (resolve w repoDir)
                  \<longrightarrow> fs_lookup f' q = fs_lookup (fs w) q)
           \<and> syncModules R this repoDir w =
               andThen (shell R (''cp -r '' @ render (dir this) @ ''/* '' @ render repoDir))
                 (\<lambda>_. ret ()) (w\<lparr>fs := f'\<rparr>)"
proof -
  let ?ws = "resolve w repoDir"
  let ?cp = "andThen (shell R (''cp -r '' @ render (dir this) @ ''/* '' @ render repoDir)) (\<lambda>_. ret ())"
  have sync: "\<And>f'. syncModules_clear repoDir w = (Inr (), w\<lparr>fs := f'\<rparr>) \<Longrightarrow>
                syncModules R this repoDir w = ?cp (w\<lparr>fs := f'\<rparr>)"
    by (simp add: syncModules_def andThen_def)
  show ?thesis
  proof (cases "existsSync w (path_join repoDir ''go.mod'')")
    case True
    let ?f1 = "\<lambda>n. case n of
                   File c \<Rightarrow> Some n
                 | Dir cs \<Rightarrow>
                     (let kept = filter (\<lambda>(k, c). k \<in> set [''.git'']) cs
                      in if False \<and> kept = [] then None else Some (Dir kept))"
    let ?f' = "fs_apply ?f1 ?ws (fs w)"
    have run: "syncModules_clear repoDir w = (Inr (), w\<lparr>fs := ?f'\<rparr>)"
      using True by (simp add: syncModules_clear_def removeDirectory_def)
    have tot: "\<forall>c. fs_alter ?f1 [] c \<noteq> None"
      by (simp split: fsnode.splits)
    have "fs_lookup (fs_apply ?f1 (?ws @ []) (fs w)) ?ws = fs_alter ?f1 [] (Dir cs)"
      using assms(1) tot by (rule fs_lookup_apply_at)
    then have at: "fs_lookup ?f' ?ws = Some (Dir (filter (\<lambda>(k, c). k = ''.git'') cs))"
      by simp
    have out: "\<forall>q. \<not> prefix ?ws q \<and> \<not> prefix q ?ws \<longrightarrow> fs_lookup ?f' q = fs_lookup (fs w) q"
      by (auto intro: fs_lookup_apply_other)
    show ?thesis
      using run at out True sync [OF run] by (intro exI [of _ ?f']) simp
  next
    case False
    have rd: "readdirSync w repoDir = Inr (map fst cs)"
      using assms(1) by (simp add: readdirSync_def)
    from clear_loop [OF refl assms(1,2,3)] obtain f' where
      loop: "forEach (\<lambda>p w'.
                 if existsSync w' (path_join (path_join repoDir p) ''go.mod'')
                 then removeDirectory (path_join repoDir p) True [] w'
                 else (Inr (), w')) (map fst cs) w = (Inr (), w\<lparr>fs := f'\<rparr>)"
      and at: "fs_lookup f' ?ws =
               Some (Dir (filter (\<lambda>(k, c). \<not> (k \<in> set (map fst cs) \<and> holds_declaration c)) cs))"
      and out: "\<forall>q. \<not> prefix ?ws q \<and> \<not> prefix q ?ws \<longrightarrow> fs_lookup f' q = fs_lookup (fs w) q"
      by blast
    have run: "syncModules_clear repoDir w = (Inr (), w\<lparr>fs := f'\<rparr>)"
      using False rd loop by (simp add: syncModules_clear_def)
    have "filter (\<lambda>(k, c). \<not> (k \<in> set (map fst cs) \<and> holds_declaration c)) cs
            = filter (\<lambda>(k, c). \<not> holds_declaration c) cs"
      by (intro filter_cong) force+
    with at have at': "fs_lookup f' ?ws = Some (Dir (filter (\<lambda>(k, c). \<not> holds_declaration c) cs))"
      by simp
    show ?thesis
      using run at' out False sync [OF run] by (intro exI [of _ f']) simp
  qed
qed

text \<open>
  The cloned workspace of the sample has no \<open>go.mod\<close> at its root and one submodule
  \<open>sub\<close>: \<open>sub\<close> is removed, \<open>.git\<close> and \<open>README\<close> stay, and the staging directory is
  untouched. A workspace with \<open>go.mod\<close> at its root and no \<open>.git\<close> is emptied.
\<close>

theorem syncModules_decided_by_workspace_witness:
  "readdirSync (sample_world sample_cloned_root) (Abs [''tmp'', ''rel'', ''widgets''])
     = Inr [''.git'', ''README'', ''sub'']
   \<and> \<not> existsSync (sample_world sample_cloned_root)
         (path_join (Abs [''tmp'', ''rel'', ''widgets'']) ''go.mod'')
   \<and> readdirSync (snd (syncModules_clear (Abs [''tmp'', ''rel'', ''widgets''])
                         (sample_world sample_cloned_root)))
        (Abs [''tmp'', ''rel'', ''widgets'']) = Inr [''.git'', ''README'']
   \<and> fs_lookup (fs (snd (syncModules_clear (Abs [''tmp'', ''rel'', ''widgets''])
                         (sample_world sample_cloned_root))))
        [''stage'', ''version''] = Some (File ''1.2.3'')
   \<and> existsSync (sample_world sample_named_root) (path_join (Abs [''widgets'']) ''go.mod'')
   \<and> readdirSync (snd (syncModules_clear (Abs [''widgets'']) (sample_world sample_named_root)))
        (Abs [''widgets'']) = Inr []"
proof -
  let ?w = "sample_world sample_cloned_root"
  let ?rd = "Abs [''tmp'', ''rel'', ''widgets'']"
  let ?cs = "[(''.git'', Dir [(''HEAD'', File ''ref'')]),
          (''README'', File ''hello''),
          (''sub'', Dir [(''go.mod'', File ''module github.com/acme/widgets/sub''),
                        (''old.go'', File ''package sub'')])]"
  let ?v = "sample_world sample_named_root"
  let ?ds = "[(''go.mod'', File ''module github.com/acme/widgets''),
          (''version'', File ''1.2.3''),
          (''sub'', Dir [(''go.mod'', File ''module github.com/acme/widgets/sub''),
                        (''version'', File ''0.1.0'')]),
          (''docs'', Dir [(''notes'', File ''text'')])]"
  have l: "fs_lookup (fs ?w) (resolve ?w ?rd) = Some (Dir ?cs)"
    by code_simp
  have d: "distinct (map fst ?cs)" by simp
  have n: "[] \<notin> set (map fst ?cs)" by simp
  have r: "resolve ?w ?rd = [''tmp'', ''rel'', ''widgets'']"
    by (simp add: resolve_def)
  have e: "\<not> existsSync ?w (path_join ?rd ''go.mod'')"
    by code_simp
  have h: "filter (\<lambda>(k, c). \<not> holds_declaration c) ?cs
             = [(''.git'', Dir [(''HEAD'', File ''ref'')]), (''README'', File ''hello'')]"
    by (simp add: holds_declaration_def)
  have o: "fs_lookup (fs ?w) [''stage'', ''version''] = Some (File ''1.2.3'')"
    by code_simp
  have a: "readdirSync ?w ?rd = Inr [''.git'', ''README'', ''sub'']"
    by code_simp
  from syncModules_decided_by_workspace [OF l d n, of "stub_runner [] sample_clone" sample_releaser]
  obtain f' where
    c1: "syncModules_clear ?rd ?w = (Inr (), ?w\<lparr>fs := f'\<rparr>)"
    and c2: "fs_lookup f' [''tmp'', ''rel'', ''widgets'']
               = Some (Dir [(''.git'', Dir [(''HEAD'', File ''ref'')]), (''README'', File ''hello'')])"
    and c3: "\<forall>q. \<not> prefix [''tmp'', ''rel'', ''widgets''] q \<and> \<not> prefix q [''tmp'', ''rel'', ''widgets'']
                  \<longrightarrow> fs_lookup f' q = fs_lookup (fs ?w) q"
    unfolding r using e h by auto
  have p1: "readdirSync (snd (syncModules_clear ?rd ?w)) ?rd = Inr [''.git'', ''README'']"
    using c1 c2 by (simp add: readdirSync_def resolve_def)
  have "\<not> prefix [''tmp'', ''rel'', ''widgets''] [''stage'', ''version'']
          \<and> \<not> prefix [''stage'', ''version''] [''tmp'', ''rel'', ''widgets'']"
    by simp
  with c3 have "fs_lookup f' [''stage'', ''version''] = fs_lookup (fs ?w) [''stage'', ''version'']"
    by blast
  then have p2: "fs_lookup (fs (snd (syncModules_clear ?rd ?w))) [''stage'', ''version'']
                   = Some (File ''1.2.3'')"
    using c1 o by simp
  have l2: "fs_lookup (fs ?v) (resolve ?v (Abs [''widgets''])) = Some (Dir ?ds)"
    by code_simp
  have d2: "distinct (map fst ?ds)" by simp
  have n2: "[] \<notin> set (map fst ?ds)" by simp
  have e2: "existsSync ?v (path_join (Abs [''widgets'']) ''go.mod'')"
    by code_simp
  have r2: "resolve ?v (Abs [''widgets'']) = [''widgets'']"
    by (simp add: resolve_def)
  from syncModules_decided_by_workspace [OF l2 d2 n2, of "stub_runner [] sample_clone" sample_releaser]
  obtain g' where
    g1: "syncModules_clear (Abs [''widgets'']) ?v = (Inr (), ?v\<lparr>fs := g'\<rparr>)"
    and g2: "fs_lookup g' [''widgets''] = Some (Dir [])"
    unfolding r2 using e2 by auto
  have p3: "readdirSync (snd (syncModules_clear (Abs [''widgets'']) ?v)) (Abs [''widgets'']) = Inr []"
    using g1 g2 by (simp add: readdirSync_def resolve_def)
  show ?thesis
    using a e p1 p2 e2 p3 by simp
qed

end
